theory Spec2Isabelle
  imports Main
begin

section \<open>Text: Python strings and \<^verbatim>\<open>TextProcessor.clean\<close>\<close>

text \<open>
  A Python \<^verbatim>\<open>str\<close> is a sequence of Unicode code points, so a string is a list of
  naturals. Literals are written through \<open>ustr\<close>, which maps an ASCII literal to its
  code points.
\<close>

type_synonym ustring = "nat list"

abbreviation (input) ustr :: "string \<Rightarrow> ustring" where
  "ustr s \<equiv> map of_char s"

text \<open>
  The code points that \<^verbatim>\<open>str.split()\<close>, \<^verbatim>\<open>str.strip()\<close> and
  \<^verbatim>\<open>str.isspace()\<close> treat as whitespace.
\<close>

definition is_space :: "nat \<Rightarrow> bool" where
  "is_space c \<longleftrightarrow>
     (9 \<le> c \<and> c \<le> 13) \<or> (28 \<le> c \<and> c \<le> 32) \<or> c = 133 \<or> c = 160 \<or> c = 5760 \<or>
     (8192 \<le> c \<and> c \<le> 8202) \<or> c = 8232 \<or> c = 8233 \<or> c = 8239 \<or> c = 8287 \<or> c = 12288"

text \<open>
  A cell of a pandas frame of dtype object: Python's \<^verbatim>\<open>None\<close>, the float NaN, or a
  string. \<open>py_str\<close> is \<^verbatim>\<open>str(value)\<close>.
\<close>

datatype cell = PyNone | NaN | Str ustring

fun py_str :: "cell \<Rightarrow> ustring" where
  "py_str PyNone = ustr ''None''"
| "py_str NaN = ustr ''nan''"
| "py_str (Str s) = s"

text \<open>\<^verbatim>\<open>value.replace("\n", "")\<close>\<close>

definition remove_newlines :: "ustring \<Rightarrow> ustring" where
  "remove_newlines s = filter (\<lambda>c. c \<noteq> 10) s"

text \<open>
  \<^verbatim>\<open>value.split()\<close>: skip whitespace, take the maximal run of other characters,
  repeat; no empty word is produced.
\<close>

function split_ws :: "ustring \<Rightarrow> ustring list" where
  "split_ws s =
     (let t = dropWhile is_space s
      in if t = [] then []
         else takeWhile (\<lambda>c. \<not> is_space c) t # split_ws (dropWhile (\<lambda>c. \<not> is_space c) t))"
  by pat_completeness auto
termination
proof (relation "measure length")
  show "wf (measure length)" by simp
next
  fix s t :: ustring
  assume t: "t = dropWhile is_space s" and ne: "t \<noteq> []"
  from ne obtain c cs where tc: "t = c # cs" by (cases t) auto
  have "\<not> is_space c" using t tc by (metis dropWhile_eq_Cons_conv)
  then have "dropWhile (\<lambda>c. \<not> is_space c) t = dropWhile (\<lambda>c. \<not> is_space c) cs"
    using tc by simp
  then have "length (dropWhile (\<lambda>c. \<not> is_space c) t) \<le> length cs"
    by (simp add: length_dropWhile_le)
  also have "length cs < length t" using tc by simp
  also have "length t \<le> length s" using t by (simp add: length_dropWhile_le)
  finally show "(dropWhile (\<lambda>c. \<not> is_space c) t, s) \<in> measure length" by simp
qed

declare split_ws.simps [simp del]

text \<open>\<^verbatim>\<open>" ".join(parts)\<close>\<close>

fun join_sp :: "ustring list \<Rightarrow> ustring" where
  "join_sp [] = []"
| "join_sp [w] = w"
| "join_sp (w # v # ws) = w @ 32 # join_sp (v # ws)"

text \<open>\<^verbatim>\<open>s.strip()\<close>\<close>

definition strip :: "ustring \<Rightarrow> ustring" where
  "strip s = rev (dropWhile is_space (rev (dropWhile is_space s)))"

text \<open>
  \<^verbatim>\<open>TextProcessor.clean\<close>: \<^verbatim>\<open>None\<close> stays \<^verbatim>\<open>None\<close>; any other value is turned
  into its string, newlines are deleted, and the words are joined by single spaces; no
  word at all gives \<^verbatim>\<open>None\<close>.
\<close>

definition clean :: "cell \<Rightarrow> ustring option" where
  "clean v =
     (case v of
        PyNone \<Rightarrow> None
      | _ \<Rightarrow>
          (let s = remove_newlines (py_str v);
               parts = split_ws s
           in if length parts > 0 then Some (strip (join_sp (split_ws s))) else None))"

text \<open>
  The normalisation in the words of the specification, to compare \<open>clean\<close> with:
  delete the newline characters, replace every run of whitespace by one space, remove
  the whitespace at both ends, and give \<^verbatim>\<open>None\<close> when nothing is left.
\<close>

function collapse_ws :: "ustring \<Rightarrow> ustring" where
  "collapse_ws [] = []"
| "collapse_ws (c # cs) =
     (if is_space c then 32 # collapse_ws (dropWhile is_space cs) else c # collapse_ws cs)"
  by pat_completeness auto
termination
proof (relation "measure length")
  show "wf (measure length)" by simp
next
  fix c :: nat and cs :: ustring
  have "length (dropWhile is_space cs) \<le> length cs" by (rule length_dropWhile_le)
  then show "(dropWhile is_space cs, c # cs) \<in> measure length" by simp
next
  fix c :: nat and cs :: ustring
  show "(cs, c # cs) \<in> measure length" by simp
qed

definition spec_clean :: "ustring \<Rightarrow> ustring option" where
  "spec_clean s =
     (let r = strip (collapse_ws (filter (\<lambda>c. c \<noteq> 10) s))
      in if r = [] then None else Some r)"

text \<open>
  Three predicates on the output of \<open>clean\<close>: a list of words as \<^verbatim>\<open>split()\<close> makes
  them, and a string in which no two whitespace characters are adjacent.
\<close>

definition good_words :: "ustring list \<Rightarrow> bool" where
  "good_words ws \<longleftrightarrow> (\<forall>w\<in>set ws. w \<noteq> [] \<and> (\<forall>c\<in>set w. \<not> is_space c))"

fun single_spaced :: "ustring \<Rightarrow> bool" where
  "single_spaced [] = True"
| "single_spaced [c] = True"
| "single_spaced (c # d # cs) = (\<not> (is_space c \<and> is_space d) \<and> single_spaced (d # cs))"

section \<open>Tables: \<^verbatim>\<open>TableExtractor.fix_continuation\<close> and its caller\<close>

text \<open>
  The exceptions the modelled code can raise.
\<close>

datatype error = IndexError | KeyError | ValueError

text \<open>
  A pandas \<^verbatim>\<open>DataFrame\<close> as the code uses it: the number of its columns (the labels
  are positions, as Camelot produces them) and its rows in order. A frame is
  rectangular: every row has as many cells as the frame has columns.
\<close>

record dataframe =
  columns :: nat
  rows :: "cell list list"

definition wf_df :: "dataframe \<Rightarrow> bool" where
  "wf_df df \<longleftrightarrow> (\<forall>r\<in>set (rows df). length r = columns df)"

text \<open>
  The merge of a continuation row into the previous output row:
  \<^verbatim>\<open>str(p) + " " + str(r) if str(r).strip() != "" else str(p)\<close> over
  \<^verbatim>\<open>zip(prev_row, row)\<close>.
\<close>

definition merge_cell :: "cell \<Rightarrow> cell \<Rightarrow> cell" where
  "merge_cell p r =
     (if strip (py_str r) \<noteq> [] then Str (py_str p @ 32 # py_str r) else Str (py_str p))"

definition merge_rows :: "cell list \<Rightarrow> cell list \<Rightarrow> cell list" where
  "merge_rows prev_row row = map (\<lambda>(p, r). merge_cell p r) (zip prev_row row)"

text \<open>
  The loop of \<^verbatim>\<open>fix_continuation\<close> over \<^verbatim>\<open>df.iterrows()\<close>, with
  \<^verbatim>\<open>fixed_rows\<close> as the accumulator. \<^verbatim>\<open>row[0]\<close> raises \<^verbatim>\<open>KeyError\<close> on a
  row without cells, and \<^verbatim>\<open>fixed_rows[-1]\<close> raises \<^verbatim>\<open>IndexError\<close> on the empty
  list.
\<close>

fun fix_loop :: "cell list list \<Rightarrow> cell list list \<Rightarrow> error + cell list list" where
  "fix_loop fixed_rows [] = Inr fixed_rows"
| "fix_loop fixed_rows (row # rest) =
     (case row of
        [] \<Rightarrow> Inl KeyError
      | c # _ \<Rightarrow>
          (case clean c of
             None \<Rightarrow>
               (if fixed_rows = [] then Inl IndexError
                else fix_loop (butlast fixed_rows @ [merge_rows (last fixed_rows) row]) rest)
           | Some _ \<Rightarrow> fix_loop (fixed_rows @ [row]) rest))"

definition fix_continuation :: "dataframe \<Rightarrow> error + dataframe" where
  "fix_continuation df =
     (case fix_loop [] (rows df) of
        Inl e \<Rightarrow> Inl e
      | Inr fixed_rows \<Rightarrow> Inr \<lparr>columns = columns df, rows = fixed_rows\<rparr>)"

text \<open>\<^verbatim>\<open>pd.isna\<close> on a cell.\<close>

fun pd_isna :: "cell \<Rightarrow> bool" where
  "pd_isna PyNone = True"
| "pd_isna NaN = True"
| "pd_isna (Str s) = False"

text \<open>
  \<^verbatim>\<open>pd.concat(dfs_, ignore_index=True)\<close> on frames that all have six columns, and
  \<^verbatim>\<open>pd.DataFrame()\<close>.
\<close>

definition concat_frames :: "dataframe list \<Rightarrow> dataframe" where
  "concat_frames dfs = \<lparr>columns = 6, rows = concat (map rows dfs)\<rparr>"

definition empty_frame :: dataframe where
  "empty_frame = \<lparr>columns = 0, rows = []\<rparr>"

text \<open>
  \<^verbatim>\<open>DataExtractor.extract_mulkiyete_ait_serh_beyan\<close>: the tables of six columns are
  concatenated; the first row is dropped when its first cell is missing or the empty
  string; the continuation rows are merged; the first row of the result is dropped.
  \<^verbatim>\<open>df.iloc[0, 0]\<close> and \<^verbatim>\<open>df.index[0]\<close> raise \<^verbatim>\<open>IndexError\<close> on a frame
  without rows. The relabelling of the six columns does not change the cells.
\<close>

definition extract_mulkiyete_ait_serh_beyan :: "dataframe list \<Rightarrow> error + dataframe" where
  "extract_mulkiyete_ait_serh_beyan dfs =
     (let dfs' = filter (\<lambda>df. columns df = 6) dfs
      in if dfs' = [] then Inr empty_frame
         else
           (let df = concat_frames dfs'
            in case rows df of
                 [] \<Rightarrow> Inl IndexError
               | [] # _ \<Rightarrow> Inl IndexError
               | (c # cs) # rest \<Rightarrow>
                   (let df1 = (if pd_isna c \<or> c = Str [] then df\<lparr>rows := rest\<rparr> else df)
                    in case fix_continuation df1 of
                         Inl e \<Rightarrow> Inl e
                       | Inr df2 \<Rightarrow>
                           (case rows df2 of
                              [] \<Rightarrow> Inl IndexError
                            | _ # rs \<Rightarrow> Inr (df2\<lparr>rows := rs\<rparr>)))))"

text \<open>
  The rows that start an output row of their own: they have a first cell and
  \<open>clean\<close> gives a string on it.
\<close>

definition good_rows :: "cell list list \<Rightarrow> bool" where
  "good_rows rs \<longleftrightarrow> (\<forall>r\<in>set rs. \<exists>c cs. r = c # cs \<and> clean c \<noteq> None)"

definition starts_row :: "cell list \<Rightarrow> bool" where
  "starts_row r = (case r of [] \<Rightarrow> False | c # _ \<Rightarrow> clean c \<noteq> None)"

section \<open>General information: \<^verbatim>\<open>DataExtractor.extract_general_info\<close>\<close>

text \<open>
  The values of the general-information dictionary: the identity number is an
  integer, every other field a string or \<^verbatim>\<open>None\<close>. The dictionary is a list of
  pairs in insertion order; the empty list is \<^verbatim>\<open>{}\<close>.
\<close>

datatype pyval = VNone | VInt int | VStr ustring

fun opt_val :: "ustring option \<Rightarrow> pyval" where
  "opt_val None = VNone"
| "opt_val (Some s) = VStr s"

text \<open>
  Sequencing of computations that may raise: the first exception ends the
  computation.
\<close>

definition and_then :: "error + 'a \<Rightarrow> ('a \<Rightarrow> error + 'b) \<Rightarrow> error + 'b" where
  "and_then m f = (case m of Inl e \<Rightarrow> Inl e | Inr x \<Rightarrow> f x)"

text \<open>\<^verbatim>\<open>df.iloc[i, j]\<close>: \<^verbatim>\<open>IndexError\<close> outside the frame.\<close>

definition iloc :: "dataframe \<Rightarrow> nat \<Rightarrow> nat \<Rightarrow> error + cell" where
  "iloc df i j =
     (if i < length (rows df) \<and> j < columns df \<and> j < length (rows df ! i)
      then Inr (rows df ! i ! j) else Inl IndexError)"

text \<open>\<^verbatim>\<open>value.split(sep)\<close> with a separator of one character.\<close>

fun split_on :: "nat \<Rightarrow> ustring \<Rightarrow> ustring list" where
  "split_on sep [] = [[]]"
| "split_on sep (c # cs) =
     (if c = sep then [] # split_on sep cs
      else (case split_on sep cs of [] \<Rightarrow> [[c]] | p # ps \<Rightarrow> (c # p) # ps))"

text \<open>
  What the code takes from outside the repository. ICU is not part of it:
  \<^verbatim>\<open>TextProcessor.capitalize\<close> is ICU's \<^verbatim>\<open>toTitle\<close> in the Turkish locale and
  \<^verbatim>\<open>TextProcessor.upper\<close> its \<^verbatim>\<open>toUpper\<close>. Python reads two tables of the Unicode
  database for the characters above U+007F: the decimal digits with their values
  (for \<^verbatim>\<open>int()\<close> and \<^verbatim>\<open>\d\<close>) and the characters with the digit property (for
  \<^verbatim>\<open>str.isdigit()\<close>). The interpreter limits the number of digits that \<^verbatim>\<open>int()\<close>
  converts (\<^verbatim>\<open>sys.get_int_max_str_digits()\<close>, 0 for no limit). They are the fields
  of a record \<open>pf\<close> that the functions below take as a parameter.
\<close>

record platform =
  to_title :: "ustring \<Rightarrow> ustring"
  to_upper :: "ustring \<Rightarrow> ustring"
  unicode_decimal :: "nat \<Rightarrow> nat option"
  unicode_digit :: "nat \<Rightarrow> bool"
  int_max_str_digits :: nat

text \<open>The ASCII digits, and the characters that \<^verbatim>\<open>\d\<close> and \<^verbatim>\<open>str.isdigit()\<close> accept.\<close>

definition is_digit :: "nat \<Rightarrow> bool" where
  "is_digit c \<longleftrightarrow> 48 \<le> c \<and> c \<le> 57"

definition decimal_value :: "platform \<Rightarrow> nat \<Rightarrow> nat option" where
  "decimal_value pf c =
     (if is_digit c then Some (c - 48) else if c > 127 then unicode_decimal pf c else None)"

definition is_decimal :: "platform \<Rightarrow> nat \<Rightarrow> bool" where
  "is_decimal pf c \<longleftrightarrow> decimal_value pf c \<noteq> None"

definition is_unicode_digit :: "platform \<Rightarrow> nat \<Rightarrow> bool" where
  "is_unicode_digit pf c \<longleftrightarrow> is_digit c \<or> (c > 127 \<and> unicode_digit pf c)"

text \<open>
  \<^verbatim>\<open>int(s)\<close> on a string. A string that is not ASCII is first rewritten: a character
  below 127 is kept, a whitespace character becomes a space, a decimal digit becomes
  the ASCII digit of its value, and any other character becomes \<^verbatim>\<open>?\<close> and ends the
  text. The text is then read in base ten: whitespace in the sense of C
  (\<^verbatim>\<open>Py_ISSPACE\<close>, which does not hold of U+001C to U+001F) is skipped at both ends,
  one sign is allowed, the digits may be grouped by single underscores, the number of
  digits is limited, and anything else raises \<^verbatim>\<open>ValueError\<close>.
\<close>

fun to_ascii :: "platform \<Rightarrow> ustring \<Rightarrow> ustring" where
  "to_ascii pf [] = []"
| "to_ascii pf (c # cs) =
     (if c < 127 then c # to_ascii pf cs
      else if is_space c then 32 # to_ascii pf cs
      else (case decimal_value pf c of
              None \<Rightarrow> [63]
            | Some d \<Rightarrow> (48 + d) # to_ascii pf cs))"

definition transform_decimal_and_space_to_ascii :: "platform \<Rightarrow> ustring \<Rightarrow> ustring" where
  "transform_decimal_and_space_to_ascii pf s =
     (if list_all (\<lambda>c. c < 128) s then s else to_ascii pf s)"

definition c_isspace :: "nat \<Rightarrow> bool" where
  "c_isspace c \<longleftrightarrow> c = 32 \<or> (9 \<le> c \<and> c \<le> 13)"

fun valid_digits :: "ustring \<Rightarrow> bool" where
  "valid_digits [] = False"
| "valid_digits [c] = is_digit c"
| "valid_digits (c # d # cs) =
     (is_digit c \<and>
      (if d = 95 then (case cs of [] \<Rightarrow> False | e # _ \<Rightarrow> is_digit e \<and> valid_digits cs)
       else valid_digits (d # cs)))"

definition digits_value :: "ustring \<Rightarrow> int" where
  "digits_value ds = foldl (\<lambda>a c. 10 * a + (int c - 48)) 0 (filter is_digit ds)"

definition py_int :: "platform \<Rightarrow> ustring \<Rightarrow> error + int" where
  "py_int pf s =
     (let buffer = transform_decimal_and_space_to_ascii pf s;
          t = rev (dropWhile c_isspace (rev (dropWhile c_isspace buffer)));
          neg = (case t of [] \<Rightarrow> False | c # _ \<Rightarrow> c = 45);
          body = (case t of [] \<Rightarrow> [] | c # r \<Rightarrow> if c = 45 \<or> c = 43 then r else t);
          digits = length (filter is_digit body)
      in if valid_digits body \<and> \<not> (int_max_str_digits pf > 0 \<and> digits > int_max_str_digits pf)
         then Inr (if neg then - digits_value body else digits_value body)
         else Inl ValueError)"

fun capitalize :: "platform \<Rightarrow> ustring option \<Rightarrow> ustring option" where
  "capitalize pf None = None"
| "capitalize pf (Some s) = Some (to_title pf s)"

fun upper :: "platform \<Rightarrow> ustring option \<Rightarrow> ustring option" where
  "upper pf None = None"
| "upper pf (Some s) = Some (to_upper pf s)"

definition extract_ada_parsel :: "ustring \<Rightarrow> ustring option \<times> ustring option" where
  "extract_ada_parsel v =
     (let values = map (\<lambda>p. clean (Str p)) (split_on 47 v)
      in if length values \<ge> 2 then (values ! 0, values ! 1) else (None, None))"

definition extract_il_ilce ::
  "platform \<Rightarrow> ustring \<Rightarrow> ustring option \<times> ustring option" where
  "extract_il_ilce pf v =
     (let parts = map (\<lambda>p. capitalize pf (clean (Str p))) (split_on 47 v)
      in if length parts \<ge> 2 then (parts ! 0, parts ! 1) else (None, None))"

text \<open>
  \<^verbatim>\<open>re.sub(r"(\d+)\.(\S)", r"\1. \2", kat)\<close>: a space is inserted after a period that
  follows a run of decimal digits and is followed by a character that is not
  whitespace, and the scan goes on after that character. The digits of the run are
  written back unchanged, so the scan can be made one character at a time: the
  rewriting happens at the last digit of the run.
\<close>

fun kat_sub :: "platform \<Rightarrow> ustring \<Rightarrow> ustring" where
  "kat_sub pf (c # p # x # rest) =
     (if is_decimal pf c \<and> p = 46 \<and> \<not> is_space x then c # 46 # 32 # x # kat_sub pf rest
      else c # kat_sub pf (p # x # rest))"
| "kat_sub pf (c # cs) = c # kat_sub pf cs"
| "kat_sub pf [] = []"

text \<open>\<^verbatim>\<open>kat.isdigit()\<close>\<close>

definition isdigit :: "platform \<Rightarrow> ustring \<Rightarrow> bool" where
  "isdigit pf s \<longleftrightarrow> s \<noteq> [] \<and> list_all (is_unicode_digit pf) s"

definition extract_blok_kat_giris_bbno ::
  "platform \<Rightarrow> ustring \<Rightarrow>
   ustring option \<times> ustring option \<times> ustring option \<times> ustring option" where
  "extract_blok_kat_giris_bbno pf v =
     (let parts = map (\<lambda>p. clean (Str p)) (split_on 47 v)
      in if length parts < 4 then (None, None, None, None)
         else
           (let kat = (case parts ! 1 of
                         None \<Rightarrow> None
                       | Some k \<Rightarrow>
                           if \<not> isdigit pf k
                           then Some (join_sp (map (to_title pf) (split_ws (kat_sub pf k))))
                           else Some k)
            in (parts ! 0, kat, parts ! 2, parts ! 3)))"

text \<open>
  \<^verbatim>\<open>extract_general_info\<close>: fewer than two tables give \<^verbatim>\<open>{}\<close>; so does every
  exception raised while the cells are read and the identity number is parsed;
  otherwise the dictionary of the twelve fields is returned.
\<close>

definition info_keys :: "string list" where
  "info_keys =
     [''tasinmaz_kimlik_no'', ''il'', ''ilce'', ''kurum_adi'', ''mahalle'', ''ada'', ''parsel'',
      ''bagimsiz_bolum_nitelik'', ''blok'', ''kat'', ''giris'', ''bbno'']"

definition general_info_of ::
  "platform \<Rightarrow> dataframe \<Rightarrow> dataframe \<Rightarrow> error + (string \<times> pyval) list" where
  "general_info_of pf col_1 col_2 =
     and_then (iloc col_1 1 1) (\<lambda>c_no.
     and_then (py_int pf (py_str c_no)) (\<lambda>tasinmaz_kimlik_no.
     and_then (iloc col_1 2 1) (\<lambda>c_il.
     and_then (iloc col_2 5 1) (\<lambda>c_blok.
     and_then (iloc col_1 3 1) (\<lambda>c_kurum.
     and_then (iloc col_1 4 1) (\<lambda>c_mahalle.
     and_then (iloc col_2 0 1) (\<lambda>c_ada.
     and_then (iloc col_2 2 1) (\<lambda>c_nitelik.
       (let (il, ilce) = extract_il_ilce pf (py_str c_il);
            (blok, kat, giris, bbno) = extract_blok_kat_giris_bbno pf (py_str c_blok);
            kurum_adi = clean (Str (py_str c_kurum));
            mahalle = capitalize pf (Some (py_str c_mahalle));
            (ada, parsel) = extract_ada_parsel (py_str c_ada);
            bagimsiz_bolum_nitelik = capitalize pf (clean (Str (py_str c_nitelik)))
        in Inr [(''tasinmaz_kimlik_no'', VInt tasinmaz_kimlik_no),
                (''il'', opt_val il),
                (''ilce'', opt_val ilce),
                (''kurum_adi'', opt_val kurum_adi),
                (''mahalle'', opt_val mahalle),
                (''ada'', opt_val ada),
                (''parsel'', opt_val parsel),
                (''bagimsiz_bolum_nitelik'', opt_val bagimsiz_bolum_nitelik),
                (''blok'', opt_val blok),
                (''kat'', opt_val kat),
                (''giris'', opt_val giris),
                (''bbno'', opt_val bbno)])))))))))"

definition extract_general_info ::
  "platform \<Rightarrow> dataframe list \<Rightarrow> (string \<times> pyval) list" where
  "extract_general_info pf dfs =
     (if length dfs < 2 then []
      else (case general_info_of pf (dfs ! 0) (dfs ! 1) of
              Inl e \<Rightarrow> []
            | Inr info \<Rightarrow> info))"

section \<open>The pipeline of one document and the batch: \<^verbatim>\<open>PDFProcessor\<close>\<close>

text \<open>
  A document is given by its file name and by the tables that
  \<^verbatim>\<open>table_extractor.extract_tables\<close> returns for it (Camelot is not part of the
  repository; on failure it returns the empty list). An output record holds the cells
  of a row of the final frame, the general information assigned to it and the name
  of the source file.
\<close>

record document =
  name :: string
  tables :: "dataframe list"

record out_row =
  cells :: "cell list"
  info :: "(string \<times> pyval) list"
  source_file :: string

text \<open>\<^verbatim>\<open>df.empty\<close>\<close>

definition df_empty :: "dataframe \<Rightarrow> bool" where
  "df_empty df \<longleftrightarrow> rows df = [] \<or> columns df = 0"

text \<open>\<^verbatim>\<open>df_masb.map(text_processor.clean).map(text_processor.upper)\<close> on one cell.\<close>

definition clean_upper :: "platform \<Rightarrow> cell \<Rightarrow> cell" where
  "clean_upper pf c = (case upper pf (clean c) of None \<Rightarrow> PyNone | Some s \<Rightarrow> Str s)"

text \<open>
  \<^verbatim>\<open>process_single_pdf\<close>. Every exception is caught at the end of the function and
  gives \<^verbatim>\<open>None\<close>. The parameter \<open>extract_fields\<close> stands for the field
  decomposition of the cleaned frame (\<^verbatim>\<open>extract_aciklama\<close>,
  \<^verbatim>\<open>extract_date_yevmiye\<close>, \<^verbatim>\<open>extract_icra_dairesi\<close> and the concatenation of their
  columns with the frame): it returns the rows of the final frame or raises, and the
  properties below hold whatever it does.
\<close>

definition process_single_pdf ::
  "platform \<Rightarrow> (dataframe \<Rightarrow> error + cell list list) \<Rightarrow> document \<Rightarrow> out_row list option" where
  "process_single_pdf pf extract_fields doc =
     (let file_dfs = tables doc
      in if file_dfs = [] then None
         else
           (let general_info = extract_general_info pf file_dfs
            in if general_info = [] then None
               else
                 (case extract_mulkiyete_ait_serh_beyan file_dfs of
                    Inl e \<Rightarrow> None
                  | Inr df_masb \<Rightarrow>
                      if df_empty df_masb then None
                      else
                        (case extract_fields
                                (df_masb\<lparr>rows := map (map (clean_upper pf)) (rows df_masb)\<rparr>) of
                           Inl e \<Rightarrow> None
                         | Inr final_rows \<Rightarrow>
                             Some (map (\<lambda>r. \<lparr>cells = r, info = general_info,
                                              source_file = name doc\<rparr>) final_rows)))))"

text \<open>
  The progress events, with the fields that tell them apart: the total of
  \<^verbatim>\<open>start\<close>; the current index, the total, the status and the file of
  \<^verbatim>\<open>progress\<close>; the two counters of \<^verbatim>\<open>complete\<close>; the message of \<^verbatim>\<open>error\<close> and of
  \<^verbatim>\<open>finished\<close>. The \<^verbatim>\<open>percent\<close> field of a progress event is computed in floating
  point and is left out, and so are the messages that repeat the other fields, the
  output path and the download fields.
\<close>

datatype status = Processed | Failed

datatype event =
    Queued
  | Start nat
  | Progress nat nat status string
  | Complete nat nat
  | ErrorEv string
  | OutputReady
  | Finished string

text \<open>
  The loop of \<^verbatim>\<open>process_multiple_pdfs\<close> from document number \<open>index\<close> on: the frames
  appended, the failures counted and the progress events sent, in order. \<open>single\<close> is
  \<^verbatim>\<open>process_single_pdf\<close>; a result that is \<^verbatim>\<open>None\<close> or an empty frame counts as a
  failure.
\<close>

fun process_loop ::
  "(document \<Rightarrow> out_row list option) \<Rightarrow> nat \<Rightarrow> nat \<Rightarrow> document list \<Rightarrow>
   out_row list list \<times> nat \<times> event list" where
  "process_loop single n_total index [] = ([], 0, [])"
| "process_loop single n_total index (pdf # pdfs) =
     (case process_loop single n_total (Suc index) pdfs of
        (frames, failures, events) \<Rightarrow>
          (case single pdf of
             None \<Rightarrow> (frames, Suc failures, Progress index n_total Failed (name pdf) # events)
           | Some df \<Rightarrow>
               if df \<noteq> [] then (df # frames, failures, Progress index n_total Processed (name pdf) # events)
               else (frames, Suc failures, Progress index n_total Failed (name pdf) # events)))"

text \<open>
  \<^verbatim>\<open>process_multiple_pdfs\<close>, called with a progress callback: the events sent, the
  frame returned (the empty frame when no document gave one) and the value of the
  failure counter at the end.
\<close>

definition process_multiple_pdfs ::
  "(document \<Rightarrow> out_row list option) \<Rightarrow> document list \<Rightarrow> event list \<times> out_row list \<times> nat" where
  "process_multiple_pdfs single pdf_paths =
     (case process_loop single (length pdf_paths) 1 pdf_paths of
        (frames, failures, events) \<Rightarrow>
          if frames = []
          then (Start (length pdf_paths) # events @ [ErrorEv ''No dataframes produced from any PDF''],
                [], failures)
          else (Start (length pdf_paths) # events @ [Complete (length frames) failures],
                concat frames, failures))"

text \<open>The decimal notation of a natural number, as an f-string writes it.\<close>

function show_nat :: "nat \<Rightarrow> string" where
  "show_nat n =
     (if n < 10 then [char_of (48 + n)] else show_nat (n div 10) @ [char_of (48 + n mod 10)])"
  by pat_completeness auto
termination
  by (relation "measure (\<lambda>n. n)") auto

declare show_nat.simps [simp del]

text \<open>
  \<^verbatim>\<open>generate_excel\<close> and \<^verbatim>\<open>generate_csv\<close>: \<^verbatim>\<open>False\<close> on an empty frame and on every
  exception; \<open>to_excel\<close> and \<open>to_csv\<close> stand for the selection of the columns and the
  writer of pandas, and tell whether they went through.
\<close>

definition generate_excel :: "(out_row list \<Rightarrow> bool) \<Rightarrow> out_row list \<Rightarrow> bool" where
  "generate_excel to_excel df = (if df = [] then False else to_excel df)"

definition generate_csv :: "(out_row list \<Rightarrow> bool) \<Rightarrow> out_row list \<Rightarrow> bool" where
  "generate_csv to_csv df = (if df = [] then False else to_csv df)"

text \<open>
  \<^verbatim>\<open>output_format.lower()\<close>, which is only compared with \<^verbatim>\<open>"excel"\<close> and
  \<^verbatim>\<open>"csv"\<close>: the letters A to Z are mapped, and no other character of a string is
  mapped to one of the letters of these two words.
\<close>

definition str_lower :: "string \<Rightarrow> string" where
  "str_lower s = map (\<lambda>c. let n = (of_char c :: nat)
                          in if 65 \<le> n \<and> n \<le> 90 then char_of (n + 32) else c) s"

text \<open>
  \<^verbatim>\<open>process_pdf_files\<close>: the events sent, and the \<^verbatim>\<open>success\<close> and \<^verbatim>\<open>message\<close>
  entries of the result.
\<close>

definition process_pdf_files ::
  "(document \<Rightarrow> out_row list option) \<Rightarrow> (out_row list \<Rightarrow> bool) \<Rightarrow> (out_row list \<Rightarrow> bool) \<Rightarrow>
   string \<Rightarrow> document list \<Rightarrow> event list \<times> bool \<times> string" where
  "process_pdf_files single to_excel to_csv output_format pdf_files =
     (case process_multiple_pdfs single pdf_files of
        (events, df, failures) \<Rightarrow>
          if df = []
          then (events @ [ErrorEv ''No data extracted from PDFs''], False, ''No data extracted from PDFs'')
          else if str_lower output_format \<noteq> ''excel'' \<and> str_lower output_format \<noteq> ''csv''
          then (events @ [ErrorEv (''Unsupported output format: '' @ output_format)], False,
                ''Unsupported output format: '' @ output_format)
          else
            (let success = (if str_lower output_format = ''excel'' then generate_excel to_excel df
                            else generate_csv to_csv df)
             in if success
                then (events @ [OutputReady], True,
                      ''Successfully processed '' @ show_nat (length pdf_files) @ '' PDFs'')
                else (events @ [ErrorEv ''Failed to generate output file''], False,
                      ''Failed to generate output file'')))"

text \<open>
  \<^verbatim>\<open>process_job\<close>: every event of \<^verbatim>\<open>process_pdf_files\<close> is put on the queue of the
  job by \<^verbatim>\<open>emit_job_event\<close>, followed by \<^verbatim>\<open>finished\<close> with the message of the result
  on success and by an \<^verbatim>\<open>error\<close> event with that message otherwise.
  \<open>job_queue\<close> is the content of the queue in the order of the writes, starting with
  the \<^verbatim>\<open>queued\<close> event of \<^verbatim>\<open>api_process\<close>.
\<close>

definition process_job ::
  "(document \<Rightarrow> out_row list option) \<Rightarrow> (out_row list \<Rightarrow> bool) \<Rightarrow> (out_row list \<Rightarrow> bool) \<Rightarrow>
   string \<Rightarrow> document list \<Rightarrow> event list" where
  "process_job single to_excel to_csv output_format pdf_paths =
     (case process_pdf_files single to_excel to_csv output_format pdf_paths of
        (events, success, message) \<Rightarrow>
          if success then events @ [Finished message] else events @ [ErrorEv message])"

definition job_queue ::
  "(document \<Rightarrow> out_row list option) \<Rightarrow> (out_row list \<Rightarrow> bool) \<Rightarrow> (out_row list \<Rightarrow> bool) \<Rightarrow>
   string \<Rightarrow> document list \<Rightarrow> event list" where
  "job_queue single to_excel to_csv output_format pdf_paths =
     Queued # process_job single to_excel to_csv output_format pdf_paths"

text \<open>The terminal events, on which the reader of the queue stops.\<close>

fun terminal :: "event \<Rightarrow> bool" where
  "terminal (Finished m) = True"
| "terminal (ErrorEv m) = True"
| "terminal e = False"

text \<open>The records a document contributes to the batch, and whether it counts as failed.\<close>

definition records_of :: "(document \<Rightarrow> out_row list option) \<Rightarrow> document \<Rightarrow> out_row list" where
  "records_of single pdf = (case single pdf of None \<Rightarrow> [] | Some df \<Rightarrow> df)"

definition doc_failed :: "(document \<Rightarrow> out_row list option) \<Rightarrow> document \<Rightarrow> bool" where
  "doc_failed single pdf \<longleftrightarrow> records_of single pdf = []"

section \<open>Example documents\<close>

text \<open>
  A small document of the expected layout: two header tables of two columns, read at
  fixed positions, and one restriction table of six columns with its header row and
  one data row. The variants differ from it in one table.
\<close>

definition header_1 :: dataframe where
  "header_1 = \<lparr>columns = 2, rows =
     [[Str (ustr ''Zemin''), Str (ustr ''Tip'')],
      [Str (ustr ''No''), Str (ustr ''123'')],
      [Str (ustr ''Il''), Str (ustr ''X/Y'')],
      [Str (ustr ''Kurum''), Str (ustr ''K'')],
      [Str (ustr ''Mahalle''), Str (ustr ''M'')]]\<rparr>"

definition header_1_bad :: dataframe where
  "header_1_bad = \<lparr>columns = 2, rows =
     [[Str (ustr ''Zemin''), Str (ustr ''Tip'')],
      [Str (ustr ''No''), Str (ustr ''12a'')],
      [Str (ustr ''Il''), Str (ustr ''X/Y'')],
      [Str (ustr ''Kurum''), Str (ustr ''K'')],
      [Str (ustr ''Mahalle''), Str (ustr ''M'')]]\<rparr>"

definition header_2 :: dataframe where
  "header_2 = \<lparr>columns = 2, rows =
     [[Str (ustr ''Ada''), Str (ustr ''1/2'')],
      [Str (ustr ''a''), Str []],
      [Str (ustr ''Nitelik''), Str (ustr ''N'')],
      [Str (ustr ''b''), Str []],
      [Str (ustr ''c''), Str []],
      [Str (ustr ''Blok''), Str (ustr ''A/1/2/3'')]]\<rparr>"

definition restrictions :: dataframe where
  "restrictions = \<lparr>columns = 6, rows =
     [[Str (ustr ''S''), Str [], Str [], Str [], Str [], Str []],
      [Str (ustr ''1''), Str (ustr ''d''), Str [], Str [], Str [], Str []]]\<rparr>"


definition blank_first :: dataframe where
  "blank_first = \<lparr>columns = 6, rows =
     [[Str (ustr '' ''), Str [], Str [], Str [], Str [], Str []],
      [Str (ustr ''1''), Str (ustr ''d''), Str [], Str [], Str [], Str []]]\<rparr>"

definition doc_ok :: document where
  "doc_ok = \<lparr>name = ''ok.pdf'', tables = [header_1, header_2, restrictions]\<rparr>"

definition doc_no_tables :: document where
  "doc_no_tables = \<lparr>name = ''none.pdf'', tables = []\<rparr>"

definition doc_bad_number :: document where
  "doc_bad_number = \<lparr>name = ''number.pdf'', tables = [header_1_bad, header_2, restrictions]\<rparr>"



definition doc_blank_first :: document where
  "doc_blank_first = \<lparr>name = ''blank.pdf'', tables = [header_1, header_2, blank_first]\<rparr>"

text \<open>
  The pipeline with the identity for the two case mappings, no digit outside ASCII,
  the default limit of 4300 digits, and a field decomposition that returns the cleaned
  rows as they are.
\<close>

definition plain :: platform where
  "plain = \<lparr>to_title = (\<lambda>s. s), to_upper = (\<lambda>s. s), unicode_decimal = (\<lambda>c. None),
            unicode_digit = (\<lambda>c. False), int_max_str_digits = 4300\<rparr>"

definition single_id :: "document \<Rightarrow> out_row list option" where
  "single_id = process_single_pdf plain (\<lambda>df. Inr (rows df))"

definition info_ok :: "(string \<times> pyval) list" where
  "info_ok =
     [(''tasinmaz_kimlik_no'', VInt 123), (''il'', VStr (ustr ''X'')), (''ilce'', VStr (ustr ''Y'')),
      (''kurum_adi'', VStr (ustr ''K'')), (''mahalle'', VStr (ustr ''M'')),
      (''ada'', VStr (ustr ''1'')), (''parsel'', VStr (ustr ''2'')),
      (''bagimsiz_bolum_nitelik'', VStr (ustr ''N'')), (''blok'', VStr (ustr ''A'')),
      (''kat'', VStr (ustr ''1'')), (''giris'', VStr (ustr ''2'')), (''bbno'', VStr (ustr ''3''))]"

definition rows_ok :: "out_row list" where
  "rows_ok =
     [\<lparr>cells = [Str (ustr ''1''), Str (ustr ''d''), PyNone, PyNone, PyNone, PyNone],
       info = info_ok, source_file = ''ok.pdf''\<rparr>]"

section \<open>Properties of \<^verbatim>\<open>clean\<close>\<close>

lemma is_space_simps [simp]: "is_space 32" "is_space 10" "\<not> is_space 97" "\<not> is_space 98"
  by (simp_all add: is_space_def)

lemma split_ws_blank: "dropWhile is_space s = [] \<Longrightarrow> split_ws s = []"
  by (subst split_ws.simps) (simp add: Let_def)

lemma split_ws_word:
  "dropWhile is_space s \<noteq> [] \<Longrightarrow>
   split_ws s = takeWhile (\<lambda>c. \<not> is_space c) (dropWhile is_space s) #
                split_ws (dropWhile (\<lambda>c. \<not> is_space c) (dropWhile is_space s))"
  by (subst split_ws.simps) (simp add: Let_def)

lemma split_ws_Nil_iff: "split_ws s = [] \<longleftrightarrow> (\<forall>c\<in>set s. is_space c)"
proof (cases "dropWhile is_space s = []")
  case True
  then show ?thesis by (simp add: split_ws_blank dropWhile_eq_Nil_conv)
next
  case False
  then show ?thesis by (simp add: split_ws_word dropWhile_eq_Nil_conv)
qed

lemma split_ws_words: "w \<in> set (split_ws s) \<Longrightarrow> w \<noteq> [] \<and> (\<forall>c\<in>set w. \<not> is_space c)"
proof (induction s rule: split_ws.induct)
  case (1 s)
  let ?t = "dropWhile is_space s"
  show ?case
  proof (cases "?t = []")
    case True
    with "1.prems" show ?thesis by (simp add: split_ws_blank)
  next
    case False
    then obtain c cs where tc: "?t = c # cs" by (cases ?t) auto
    then have nc: "\<not> is_space c" by (metis dropWhile_eq_Cons_conv)
    from "1.prems" False have "w = takeWhile (\<lambda>c. \<not> is_space c) ?t \<or> w \<in> set (split_ws (dropWhile (\<lambda>c. \<not> is_space c) ?t))"
      by (simp add: split_ws_word)
    then show ?thesis
    proof
      assume w: "w = takeWhile (\<lambda>c. \<not> is_space c) ?t"
      have "w \<noteq> []" using w tc nc by simp
      moreover have "\<forall>c\<in>set w. \<not> is_space c" using w by (auto dest: set_takeWhileD)
      ultimately show ?thesis by simp
    next
      assume "w \<in> set (split_ws (dropWhile (\<lambda>c. \<not> is_space c) ?t))"
      with "1.IH" [OF refl False] show ?thesis by simp
    qed
  qed
qed

lemma filter_dropWhile_same: "filter (\<lambda>c. \<not> P c) (dropWhile P s) = filter (\<lambda>c. \<not> P c) s"
  by (induction s) auto

lemma filter_takeWhile_same: "filter P (takeWhile P s) = takeWhile P s"
  by (induction s) auto

lemma filter_take_drop: "filter Q (takeWhile P s) @ filter Q (dropWhile P s) = filter Q s"
  by (metis filter_append takeWhile_dropWhile_id)

lemma concat_split_ws: "concat (split_ws s) = filter (\<lambda>c. \<not> is_space c) s"
proof (induction s rule: split_ws.induct)
  case (1 s)
  let ?t = "dropWhile is_space s"
  let ?N = "\<lambda>c. \<not> is_space c"
  show ?case
  proof (cases "?t = []")
    case True
    then have "\<forall>c\<in>set s. is_space c" by (simp add: dropWhile_eq_Nil_conv)
    then have "filter ?N s = []" by (simp add: filter_empty_conv)
    then show ?thesis using True by (simp add: split_ws_blank)
  next
    case False
    have "concat (split_ws s) = takeWhile ?N ?t @ filter ?N (dropWhile ?N ?t)"
      using "1.IH" [OF refl False] False by (simp add: split_ws_word)
    also have "\<dots> = filter ?N (takeWhile ?N ?t) @ filter ?N (dropWhile ?N ?t)"
      by (simp only: filter_takeWhile_same)
    also have "\<dots> = filter ?N ?t"
      by (rule filter_take_drop)
    also have "\<dots> = filter ?N s" by (rule filter_dropWhile_same)
    finally show ?thesis .
  qed
qed

lemma join_sp_Nil_iff: "good_words ws \<Longrightarrow> join_sp ws = [] \<longleftrightarrow> ws = []"
  by (induction ws rule: join_sp.induct) (auto simp: good_words_def)

lemma hd_join_sp: "good_words ws \<Longrightarrow> ws \<noteq> [] \<Longrightarrow> \<not> is_space (hd (join_sp ws))"
  by (induction ws rule: join_sp.induct) (auto simp: good_words_def hd_append)

lemma last_join_sp: "good_words ws \<Longrightarrow> ws \<noteq> [] \<Longrightarrow> \<not> is_space (last (join_sp ws))"
  by (induction ws rule: join_sp.induct) (auto simp: good_words_def last_append join_sp_Nil_iff)

lemma concat_filter_join_sp: "good_words ws \<Longrightarrow> filter (\<lambda>c. \<not> is_space c) (join_sp ws) = concat ws"
  by (induction ws rule: join_sp.induct) (auto simp: good_words_def filter_id_conv)

lemma space_join_sp: "good_words ws \<Longrightarrow> c \<in> set (join_sp ws) \<Longrightarrow> is_space c \<Longrightarrow> c = 32"
  by (induction ws rule: join_sp.induct) (auto simp: good_words_def)


lemma single_spaced_word: "\<forall>c\<in>set w. \<not> is_space c \<Longrightarrow> single_spaced w"
  by (induction w rule: single_spaced.induct) auto

lemma single_spaced_glue:
  "w \<noteq> [] \<Longrightarrow> \<forall>c\<in>set w. \<not> is_space c \<Longrightarrow> r \<noteq> [] \<Longrightarrow> \<not> is_space (hd r) \<Longrightarrow>
   single_spaced r \<Longrightarrow> single_spaced (w @ 32 # r)"
proof (induction w rule: single_spaced.induct)
  case 1
  then show ?case by simp
next
  case (2 c)
  then show ?case by (cases r) auto
next
  case (3 c d cs)
  then show ?case by simp
qed

lemma single_spaced_join_sp: "good_words ws \<Longrightarrow> single_spaced (join_sp ws)"
proof (induction ws rule: join_sp.induct)
  case 1
  then show ?case by simp
next
  case (2 w)
  then show ?case by (simp add: good_words_def single_spaced_word)
next
  case (3 w v ws)
  have gw: "good_words (v # ws)" using 3 by (simp add: good_words_def)
  have "single_spaced (w @ 32 # join_sp (v # ws))"
  proof (rule single_spaced_glue)
    show "w \<noteq> []" "\<forall>c\<in>set w. \<not> is_space c" using 3 by (simp_all add: good_words_def)
    show "join_sp (v # ws) \<noteq> []" using gw by (simp add: join_sp_Nil_iff)
    show "\<not> is_space (hd (join_sp (v # ws)))" using gw by (simp add: hd_join_sp)
    show "single_spaced (join_sp (v # ws))" using 3 gw by simp
  qed
  then show ?case by simp
qed

lemma strip_id: "s \<noteq> [] \<Longrightarrow> \<not> is_space (hd s) \<Longrightarrow> \<not> is_space (last s) \<Longrightarrow> strip s = s"
proof -
  assume a: "s \<noteq> []" "\<not> is_space (hd s)" "\<not> is_space (last s)"
  then have "dropWhile is_space s = s" by (cases s) auto
  moreover have "dropWhile is_space (rev s) = rev s"
    using a by (cases "rev s") (auto simp: last_rev hd_rev)
  ultimately show ?thesis by (simp add: strip_def)
qed

lemma good_words_split_ws: "good_words (split_ws s)"
  using split_ws_words by (auto simp: good_words_def)

lemma all_space_remove_newlines:
  "(\<forall>c\<in>set (remove_newlines s). is_space c) \<longleftrightarrow> (\<forall>c\<in>set s. is_space c)"
proof
  assume a: "\<forall>c\<in>set (remove_newlines s). is_space c"
  show "\<forall>c\<in>set s. is_space c"
  proof
    fix c assume c: "c \<in> set s"
    show "is_space c"
    proof (cases "c = 10")
      case True
      then show ?thesis by simp
    next
      case False
      with c a show ?thesis by (simp add: remove_newlines_def)
    qed
  qed
next
  assume "\<forall>c\<in>set s. is_space c"
  then show "\<forall>c\<in>set (remove_newlines s). is_space c" by (simp add: remove_newlines_def)
qed

lemma clean_words:
  "v \<noteq> PyNone \<Longrightarrow>
   clean v = (if \<forall>c\<in>set (py_str v). is_space c then None
              else Some (join_sp (split_ws (remove_newlines (py_str v)))))"
proof -
  assume nn: "v \<noteq> PyNone"
  let ?ws = "split_ws (remove_newlines (py_str v))"
  have c: "clean v = (if ?ws = [] then None else Some (strip (join_sp ?ws)))"
    using nn by (cases v) (simp_all add: clean_def Let_def)
  have e: "?ws = [] \<longleftrightarrow> (\<forall>c\<in>set (py_str v). is_space c)"
    by (simp add: split_ws_Nil_iff all_space_remove_newlines)
  have "strip (join_sp ?ws) = join_sp ?ws" if "?ws \<noteq> []"
    using that good_words_split_ws [of "remove_newlines (py_str v)"]
    by (intro strip_id) (simp_all add: join_sp_Nil_iff hd_join_sp last_join_sp)
  then show ?thesis using c e by auto
qed

lemma clean_None_iff: "clean v = None \<longleftrightarrow> v = PyNone \<or> (\<forall>c\<in>set (py_str v). is_space c)"
proof (cases "v = PyNone")
  case True
  then show ?thesis by (simp add: clean_def)
next
  case False
  then show ?thesis by (simp add: clean_words)
qed

lemma filter_remove_newlines:
  "filter (\<lambda>c. \<not> is_space c) (remove_newlines s) = filter (\<lambda>c. \<not> is_space c) s"
proof -
  have "\<And>c. (c \<noteq> 10 \<and> \<not> is_space c) = (\<not> is_space c)"
    using is_space_simps(2) by blast
  then show ?thesis by (simp add: remove_newlines_def)
qed

text \<open>Evaluation of \<open>split_ws\<close> on a given list, one character at a time.\<close>

lemma split_ws_Nil [simp]: "split_ws [] = []"
  by (simp add: split_ws_blank)

lemma split_ws_Cons:
  "split_ws (c # cs) =
     (if is_space c then split_ws cs
      else takeWhile (\<lambda>c. \<not> is_space c) (c # cs) #
           split_ws (dropWhile (\<lambda>c. \<not> is_space c) (c # cs)))"
proof (cases "is_space c")
  case True
  show ?thesis
  proof (cases "dropWhile is_space cs = []")
    case e: True
    then show ?thesis using True by (simp add: split_ws_blank)
  next
    case False
    then show ?thesis using True by (simp add: split_ws_word)
  qed
next
  case False
  then show ?thesis by (simp add: split_ws_word)
qed
section \<open>\<open>clean\<close> against the specification's three steps\<close>

lemma collapse_ws_head:
  "t \<noteq> [] \<Longrightarrow> \<not> is_space (hd t) \<Longrightarrow> collapse_ws t \<noteq> [] \<and> hd (collapse_ws t) = hd t"
  by (cases t) simp_all

lemma lstrip_collapse_ws_head:
  "u = [] \<or> \<not> is_space (hd u) \<Longrightarrow> dropWhile is_space (collapse_ws u) = collapse_ws u"
  by (cases u) auto

lemma dropWhile_head: "dropWhile P cs = [] \<or> \<not> P (hd (dropWhile P cs))"
  by (metis hd_dropWhile)

lemma lstrip_collapse_ws:
  "dropWhile is_space (collapse_ws t) = collapse_ws (dropWhile is_space t)"
proof (cases t)
  case Nil
  then show ?thesis by simp
next
  case (Cons c cs)
  show ?thesis
  proof (cases "is_space c")
    case True
    have "dropWhile is_space (collapse_ws (dropWhile is_space cs)) =
          collapse_ws (dropWhile is_space cs)"
      by (rule lstrip_collapse_ws_head) (rule dropWhile_head)
    then show ?thesis using Cons True by simp
  next
    case False
    then show ?thesis using Cons by simp
  qed
qed

lemma collapse_ws_word:
  "collapse_ws t =
     takeWhile (\<lambda>c. \<not> is_space c) t @ collapse_ws (dropWhile (\<lambda>c. \<not> is_space c) t)"
  by (induction t) simp_all

lemma rstrip_append:
  "rev (dropWhile is_space (rev (a @ b))) =
     (if rev (dropWhile is_space (rev b)) = [] then rev (dropWhile is_space (rev a))
      else a @ rev (dropWhile is_space (rev b)))"
proof (cases "\<forall>c\<in>set b. is_space c")
  case True
  then have "dropWhile is_space (rev b) = []" by (simp add: dropWhile_eq_Nil_conv)
  moreover have "dropWhile is_space (rev b @ rev a) = dropWhile is_space (rev a)"
    using True by (intro dropWhile_append2) simp
  ultimately show ?thesis by simp
next
  case False
  then have ne: "dropWhile is_space (rev b) \<noteq> []" by (simp add: dropWhile_eq_Nil_conv)
  from False obtain x where "x \<in> set (rev b)" "\<not> is_space x" by auto
  then have "dropWhile is_space (rev b @ rev a) = dropWhile is_space (rev b) @ rev a"
    by (rule dropWhile_append1)
  then show ?thesis using ne False by auto
qed

lemma rstrip_word:
  "w \<noteq> [] \<Longrightarrow> \<forall>c\<in>set w. \<not> is_space c \<Longrightarrow> rev (dropWhile is_space (rev w)) = w"
  by (cases "rev w") auto

lemma strip_collapse_ws: "strip (collapse_ws s) = join_sp (split_ws s)"
proof (induction s rule: split_ws.induct)
  case (1 s)
  let ?N = "\<lambda>c. \<not> is_space c"
  let ?t = "dropWhile is_space s"
  let ?R = "\<lambda>x. rev (dropWhile is_space (rev x))"
  have s1: "strip (collapse_ws s) = ?R (collapse_ws ?t)"
    by (simp add: strip_def lstrip_collapse_ws)
  show ?case
  proof (cases "?t = []")
    case True
    have c0: "collapse_ws ?t = []" by (subst True) simp
    have "strip (collapse_ws s) = []" unfolding s1 c0 by simp
    then show ?thesis using split_ws_blank [OF True] by simp
  next
    case False
    let ?w = "takeWhile ?N ?t"
    let ?rest = "dropWhile ?N ?t"
    from False obtain c cs where tc: "?t = c # cs" by (cases ?t) auto
    then have nc: "\<not> is_space c" by (metis dropWhile_eq_Cons_conv)
    have wne: "?w \<noteq> []" using tc nc by simp
    have wns: "\<forall>c\<in>set ?w. \<not> is_space c" by (auto dest: set_takeWhileD)
    have rw: "?R ?w = ?w" using wne wns by (rule rstrip_word)
    have sw: "split_ws s = ?w # split_ws ?rest" using False by (simp add: split_ws_word)
    have IH: "strip (collapse_ws ?rest) = join_sp (split_ws ?rest)"
      using "1.IH" [OF refl False] .
    have ct: "collapse_ws ?t = ?w @ collapse_ws ?rest" by (rule collapse_ws_word)
    have e: "join_sp (split_ws ?rest) = [] \<longleftrightarrow> split_ws ?rest = []"
      using good_words_split_ws [of ?rest] by (simp add: join_sp_Nil_iff)
    have sr: "?R (collapse_ws ?rest) =
                (if split_ws ?rest = [] then [] else 32 # join_sp (split_ws ?rest))"
    proof (cases ?rest)
      case Nil
      have c0: "collapse_ws ?rest = []" by (subst Nil) simp
      have s0: "split_ws ?rest = []" by (subst Nil) simp
      show ?thesis unfolding c0 s0 by simp
    next
      case (Cons d ds)
      then have sd: "is_space d" by (metis dropWhile_eq_Cons_conv)
      let ?Z = "collapse_ws (dropWhile is_space ds)"
      have lz: "dropWhile is_space ?Z = ?Z"
        by (rule lstrip_collapse_ws_head) (rule dropWhile_head)
      have "strip (collapse_ws ?rest) = ?R ?Z"
        using Cons sd lz by (simp add: strip_def)
      then have z: "?R ?Z = join_sp (split_ws ?rest)" using IH by simp
      have "?R (collapse_ws ?rest) = ?R ([32] @ ?Z)" using Cons sd by simp
      also have "\<dots> = (if ?R ?Z = [] then ?R [32] else [32] @ ?R ?Z)"
        by (rule rstrip_append)
      finally have f: "?R (collapse_ws ?rest) = (if ?R ?Z = [] then ?R [32] else [32] @ ?R ?Z)" .
      have r32: "?R [32] = []" by simp
      show ?thesis
      proof (cases "split_ws ?rest = []")
        case True
        then have j0: "join_sp (split_ws ?rest) = []" using e by blast
        have r0: "?R (collapse_ws ?rest) = []" unfolding f z r32 j0 by simp
        show ?thesis by (simp only: r0 True if_True refl)
      next
        case False
        then have j1: "join_sp (split_ws ?rest) \<noteq> []" using e by blast
        have r1: "?R (collapse_ws ?rest) = 32 # join_sp (split_ws ?rest)"
          unfolding f z by (simp only: j1 if_False append.simps)
        show ?thesis by (simp only: r1 False if_False refl)
      qed
    qed
    have "?R (collapse_ws ?t) = ?R (?w @ collapse_ws ?rest)" using ct by simp
    also have "\<dots> = (if ?R (collapse_ws ?rest) = [] then ?R ?w else ?w @ ?R (collapse_ws ?rest))"
      by (rule rstrip_append)
    also have "\<dots> = join_sp (?w # split_ws ?rest)"
    proof (cases "split_ws ?rest")
      case Nil
      have r0: "?R (collapse_ws ?rest) = []" by (simp only: sr Nil if_True refl)
      show ?thesis by (simp only: r0 Nil if_True rw join_sp.simps refl)
    next
      case (Cons v vs)
      have r1: "?R (collapse_ws ?rest) = 32 # join_sp (v # vs)"
        by (simp only: sr Cons list.distinct if_False refl)
      show ?thesis by (simp only: r1 Cons list.distinct if_False join_sp.simps refl)
    qed
    finally show ?thesis using s1 sw by simp
  qed
qed

lemma clean_spec_clean: "clean (Str s) = spec_clean s"
proof -
  let ?ws = "split_ws (remove_newlines s)"
  have j: "strip (collapse_ws (filter (\<lambda>c. c \<noteq> 10) s)) = join_sp ?ws"
    using strip_collapse_ws [of "remove_newlines s"] by (simp add: remove_newlines_def)
  have e: "join_sp ?ws = [] \<longleftrightarrow> ?ws = []"
    using good_words_split_ws [of "remove_newlines s"] by (simp add: join_sp_Nil_iff)
  have w: "?ws = [] \<longleftrightarrow> (\<forall>c\<in>set s. is_space c)"
    by (simp add: split_ws_Nil_iff all_space_remove_newlines)
  show ?thesis using j e w by (simp add: clean_words spec_clean_def Let_def)
qed

lemma starts_row_simps: "starts_row (c # cs) = (clean c \<noteq> None)" "\<not> starts_row []"
  by (simp_all add: starts_row_def)

lemma fix_loop_length:
  "fix_loop fixed rs = Inr out \<Longrightarrow> fixed \<noteq> [] \<or> rs = [] \<or> starts_row (hd rs) \<Longrightarrow>
   length out = length fixed + length (filter starts_row rs)"
proof (induction rs arbitrary: fixed)
  case Nil
  then show ?case by simp
next
  case (Cons row rest)
  from Cons.prems(1) obtain c cs where row: "row = c # cs" by (cases row) auto
  show ?case
  proof (cases "clean c")
    case None
    with Cons.prems row have ne: "fixed \<noteq> []"
      and rec: "fix_loop (butlast fixed @ [merge_rows (last fixed) row]) rest = Inr out"
      by (auto split: if_splits)
    have "length out = length (butlast fixed @ [merge_rows (last fixed) row]) + length (filter starts_row rest)"
      using Cons.IH [OF rec] by simp
    then show ?thesis using ne row None by (simp add: starts_row_simps)
  next
    case (Some u)
    with Cons.prems(1) row have rec: "fix_loop (fixed @ [row]) rest = Inr out" by simp
    have "length out = length (fixed @ [row]) + length (filter starts_row rest)"
      using Cons.IH [OF rec] by simp
    then show ?thesis using row Some by (simp add: starts_row_simps)
  qed
qed

lemma fix_continuation_length:
  "fix_continuation df = Inr out \<Longrightarrow> length (rows out) = length (filter starts_row (rows df))"
proof -
  assume a: "fix_continuation df = Inr out"
  then obtain fixed where f: "fix_loop [] (rows df) = Inr fixed"
    and out: "rows out = fixed"
    by (auto simp: fix_continuation_def split: sum.splits)
  have "rows df = [] \<or> starts_row (hd (rows df))"
  proof (cases "rows df")
    case Nil
    then show ?thesis by simp
  next
    case (Cons r rs)
    with f show ?thesis by (cases r) (auto simp: starts_row_simps split: option.splits)
  qed
  with fix_loop_length [OF f] out show ?thesis by simp
qed
text \<open>
  Claim C8. \<open>clean\<close> is the normalisation the specification describes: it deletes the
  newline characters, replaces every run of whitespace by one space and removes the
  whitespace at both ends (\<open>spec_clean\<close>), and it gives \<^verbatim>\<open>None\<close> exactly when
  nothing is left, which is when the input holds whitespace only. A newline is deleted
  and not replaced by a space: \<^verbatim>\<open>"a\nb"\<close> gives \<^verbatim>\<open>"ab"\<close>, and the result is that of
  the input without its newlines. On \<^verbatim>\<open>" a \n b "\<close> it gives \<^verbatim>\<open>"a b"\<close>, on
  \<^verbatim>\<open>""\<close> and \<^verbatim>\<open>"   "\<close> it gives \<^verbatim>\<open>None\<close>. A result is not empty, holds no
  newline, neither starts nor ends with whitespace, its only whitespace characters are
  single spaces, and its other characters are those of the input in their order.
  \<^verbatim>\<open>None\<close> on the first cell is what makes \<^verbatim>\<open>fix_continuation\<close> merge a row into
  the one before it: the frame it returns has one row for each input row on whose
  first cell \<open>clean\<close> gives a string.
\<close>

theorem clean_spec:
  "clean (Str s) = spec_clean s \<and>
   clean (Str s) = clean (Str (filter (\<lambda>c. c \<noteq> 10) s)) \<and>
   clean (Str (ustr ''a\<newline>b'')) = Some (ustr ''ab'') \<and>
   clean (Str (ustr '' a \<newline> b '')) = Some (ustr ''a b'') \<and>
   clean (Str []) = None \<and>
   clean (Str (ustr ''   '')) = None \<and>
   clean PyNone = None \<and>
   (clean (Str s) = None \<longleftrightarrow> strip (collapse_ws (filter (\<lambda>c. c \<noteq> 10) s)) = []) \<and>
   (clean (Str s) = None \<longleftrightarrow> (\<forall>c\<in>set s. is_space c)) \<and>
   (\<forall>r. clean (Str s) = Some r \<longrightarrow>
        r = strip (collapse_ws (filter (\<lambda>c. c \<noteq> 10) s)) \<and> r \<noteq> [] \<and> 10 \<notin> set r \<and>
        \<not> is_space (hd r) \<and> \<not> is_space (last r) \<and>
        (\<forall>c\<in>set r. is_space c \<longrightarrow> c = 32) \<and> single_spaced r \<and>
        filter (\<lambda>c. \<not> is_space c) r = filter (\<lambda>c. \<not> is_space c) s) \<and>
   (\<forall>out. fix_continuation df = Inr out \<longrightarrow>
        length (rows out) = length (filter starts_row (rows df)))"
proof -
  let ?ws = "split_ws (remove_newlines s)"
  let ?f = "filter (\<lambda>c. c \<noteq> 10) s"
  have gw: "good_words ?ws" by (rule good_words_split_ws)
  have sc: "clean (Str s) = spec_clean s" by (rule clean_spec_clean)
  have ff: "filter (\<lambda>c. c \<noteq> 10) ?f = ?f" by simp
  have nf: "clean (Str s) = clean (Str ?f)"
    unfolding clean_spec_clean spec_clean_def ff ..
  have e0: "clean (Str (ustr ''a\<newline>b'')) = Some (ustr ''ab'')"
    by (simp add: clean_words is_space_def remove_newlines_def split_ws_Cons)
  have e1: "clean (Str (ustr '' a \<newline> b '')) = Some (ustr ''a b'')"
    by (simp add: clean_words is_space_def remove_newlines_def split_ws_Cons)
  have e2: "clean (Str []) = None" by (simp add: clean_None_iff)
  have e3: "clean (Str (ustr ''   '')) = None" by (simp add: clean_None_iff)
  have e4: "clean PyNone = None" by (simp add: clean_def)
  have n2: "clean (Str s) = None \<longleftrightarrow> (\<forall>c\<in>set s. is_space c)" by (simp add: clean_None_iff)
  have wsn: "?ws = [] \<longleftrightarrow> (\<forall>c\<in>set s. is_space c)"
    by (simp add: split_ws_Nil_iff all_space_remove_newlines)
  have j: "strip (collapse_ws ?f) = join_sp ?ws"
    using strip_collapse_ws [of "remove_newlines s"] by (simp add: remove_newlines_def)
  have n1: "clean (Str s) = None \<longleftrightarrow> strip (collapse_ws ?f) = []"
    unfolding j using n2 wsn gw by (simp add: join_sp_Nil_iff)
  have res: "\<forall>r. clean (Str s) = Some r \<longrightarrow>
        r = strip (collapse_ws ?f) \<and> r \<noteq> [] \<and> 10 \<notin> set r \<and>
        \<not> is_space (hd r) \<and> \<not> is_space (last r) \<and>
        (\<forall>c\<in>set r. is_space c \<longrightarrow> c = 32) \<and> single_spaced r \<and>
        filter (\<lambda>c. \<not> is_space c) r = filter (\<lambda>c. \<not> is_space c) s"
  proof (intro allI impI)
    fix r
    assume a: "clean (Str s) = Some r"
    then have ns: "\<not> (\<forall>c\<in>set s. is_space c)" and r: "r = join_sp ?ws"
      by (auto simp: clean_words split: if_splits)
    from ns wsn have ne: "?ws \<noteq> []" by simp
    have sp: "\<forall>c\<in>set r. is_space c \<longrightarrow> c = 32"
      using space_join_sp [OF gw] r by blast
    have nl: "10 \<notin> set r"
    proof
      assume "10 \<in> set r"
      with sp have "is_space 10 \<longrightarrow> (10::nat) = 32" by blast
      then show False by simp
    qed
    have fl: "filter (\<lambda>c. \<not> is_space c) r = filter (\<lambda>c. \<not> is_space c) s"
      using r gw by (simp add: concat_filter_join_sp concat_split_ws filter_remove_newlines)
    have "r = join_sp ?ws \<and> r \<noteq> [] \<and> 10 \<notin> set r \<and>
        \<not> is_space (hd r) \<and> \<not> is_space (last r) \<and>
        (\<forall>c\<in>set r. is_space c \<longrightarrow> c = 32) \<and> single_spaced r \<and>
        filter (\<lambda>c. \<not> is_space c) r = filter (\<lambda>c. \<not> is_space c) s"
      using r ne gw sp nl fl
      by (simp add: join_sp_Nil_iff hd_join_sp last_join_sp single_spaced_join_sp)
    then show "r = strip (collapse_ws ?f) \<and> r \<noteq> [] \<and> 10 \<notin> set r \<and>
        \<not> is_space (hd r) \<and> \<not> is_space (last r) \<and>
        (\<forall>c\<in>set r. is_space c \<longrightarrow> c = 32) \<and> single_spaced r \<and>
        filter (\<lambda>c. \<not> is_space c) r = filter (\<lambda>c. \<not> is_space c) s"
      unfolding j .
  qed
  have l: "\<forall>out. fix_continuation df = Inr out \<longrightarrow>
        length (rows out) = length (filter starts_row (rows df))"
    using fix_continuation_length by blast
  show ?thesis by (intro conjI) (rule sc nf e0 e1 e2 e3 e4 n1 n2 res l)+
qed

theorem clean_spec_witness:
  "clean (Str (ustr ''x \<newline>  y'')) = Some (ustr ''x y'') \<and>
   spec_clean (ustr ''x \<newline>  y'') = Some (ustr ''x y'') \<and>
   strip (collapse_ws (filter (\<lambda>c. c \<noteq> 10) (ustr ''x \<newline>  y''))) = ustr ''x y'' \<and>
   single_spaced (ustr ''x y'') \<and>
   filter (\<lambda>c. \<not> is_space c) (ustr ''x y'') = filter (\<lambda>c. \<not> is_space c) (ustr ''x \<newline>  y'') \<and>
   clean (Str (ustr '' '')) = None \<and>
   fix_continuation \<lparr>columns = 1, rows = [[Str (ustr ''a'')], [Str (ustr '' '')], [Str (ustr ''b'')]]\<rparr> =
     Inr \<lparr>columns = 1, rows = [[Str (ustr ''a'')], [Str (ustr ''b'')]]\<rparr> \<and>
   length (filter starts_row [[Str (ustr ''a'')], [Str (ustr '' '')], [Str (ustr ''b'')]]) = 2"
proof -
  let ?s = "ustr ''x \<newline>  y''"
  let ?df = "\<lparr>columns = 1, rows = [[Str (ustr ''a'')], [Str (ustr '' '')], [Str (ustr ''b'')]]\<rparr>"
  let ?out = "\<lparr>columns = 1, rows = [[Str (ustr ''a'')], [Str (ustr ''b'')]]\<rparr>"
  have c: "clean (Str ?s) = Some (ustr ''x y'')"
    by (simp add: clean_words is_space_def remove_newlines_def split_ws_Cons)
  have n: "clean (Str (ustr '' '')) = None" by (simp add: clean_None_iff)
  have a: "clean (Str (ustr ''a'')) = Some (ustr ''a'')"
    by (simp add: clean_words is_space_def remove_newlines_def split_ws_Cons)
  have b: "clean (Str (ustr ''b'')) = Some (ustr ''b'')"
    by (simp add: clean_words is_space_def remove_newlines_def split_ws_Cons)
  have f: "fix_continuation ?df = Inr ?out"
    using a b n by (simp add: fix_continuation_def merge_rows_def merge_cell_def strip_def)
  note t = clean_spec [of ?s ?df]
  have s: "clean (Str ?s) = spec_clean ?s" using t by (elim conjE)
  have r: "\<forall>r. clean (Str ?s) = Some r \<longrightarrow>
        r = strip (collapse_ws (filter (\<lambda>c. c \<noteq> 10) ?s)) \<and> r \<noteq> [] \<and> 10 \<notin> set r \<and>
        \<not> is_space (hd r) \<and> \<not> is_space (last r) \<and>
        (\<forall>c\<in>set r. is_space c \<longrightarrow> c = 32) \<and> single_spaced r \<and>
        filter (\<lambda>c. \<not> is_space c) r = filter (\<lambda>c. \<not> is_space c) ?s"
    using t by (elim conjE)
  have l: "\<forall>out. fix_continuation ?df = Inr out \<longrightarrow>
        length (rows out) = length (filter starts_row (rows ?df))"
    using t by (elim conjE)
  have w1: "spec_clean ?s = Some (ustr ''x y'')" using s c by simp
  have w2: "ustr ''x y'' = strip (collapse_ws (filter (\<lambda>c. c \<noteq> 10) ?s)) \<and>
     single_spaced (ustr ''x y'') \<and>
     filter (\<lambda>c. \<not> is_space c) (ustr ''x y'') = filter (\<lambda>c. \<not> is_space c) ?s"
    using r [rule_format, OF c] by (elim conjE) (intro conjI)
  have w3a: "length (filter starts_row [[Str (ustr ''a'')], [Str (ustr '' '')], [Str (ustr ''b'')]]) =
     length [[Str (ustr ''a'')], [Str (ustr ''b'')]]"
    using l [rule_format, OF f, symmetric] by (simp only: dataframe.select_convs)
  have w3: "length (filter starts_row [[Str (ustr ''a'')], [Str (ustr '' '')], [Str (ustr ''b'')]]) = 2"
    unfolding w3a by simp
  have w2a: "strip (collapse_ws (filter (\<lambda>c. c \<noteq> 10) ?s)) = ustr ''x y''"
    using w2 by (elim conjE) (erule sym)
  have w2b: "single_spaced (ustr ''x y'')" using w2 by (elim conjE)
  have w2c: "filter (\<lambda>c. \<not> is_space c) (ustr ''x y'') = filter (\<lambda>c. \<not> is_space c) ?s"
    using w2 by (elim conjE)
  show ?thesis by (intro conjI) (rule c n f w1 w2a w2b w2c w3)+
qed
section \<open>Properties of \<^verbatim>\<open>fix_continuation\<close>\<close>

lemma clean_merge_cell: "clean p \<noteq> None \<Longrightarrow> clean r = None \<Longrightarrow> clean (merge_cell p r) \<noteq> None"
proof -
  assume p: "clean p \<noteq> None" and r: "clean r = None"
  from p have pn: "p \<noteq> PyNone" and ps: "\<exists>c\<in>set (py_str p). \<not> is_space c"
    by (auto simp: clean_None_iff)
  show ?thesis using ps by (auto simp: merge_cell_def clean_None_iff)
qed

lemma good_merge_rows:
  "prev = p # ps \<Longrightarrow> clean p \<noteq> None \<Longrightarrow> row = c # cs \<Longrightarrow> clean c = None \<Longrightarrow>
   \<exists>d ds. merge_rows prev row = d # ds \<and> clean d \<noteq> None"
  using clean_merge_cell [of p c] by (auto simp: merge_rows_def)

lemma good_rows_butlast: "good_rows rs \<Longrightarrow> good_rows (butlast rs)"
  by (auto simp: good_rows_def dest: in_set_butlastD)

lemma good_rows_snoc: "good_rows (rs @ [r]) \<longleftrightarrow> good_rows rs \<and> (\<exists>c cs. r = c # cs \<and> clean c \<noteq> None)"
  by (auto simp: good_rows_def)

lemma fix_loop_good:
  "fix_loop fixed rs = Inr out \<Longrightarrow> good_rows fixed \<Longrightarrow> good_rows out"
proof (induction rs arbitrary: fixed)
  case Nil
  then show ?case by simp
next
  case (Cons row rest)
  from Cons.prems(1) obtain c cs where row: "row = c # cs"
    by (cases row) auto
  show ?case
  proof (cases "clean c")
    case None
    with Cons.prems(1) row have ne: "fixed \<noteq> []"
      and rec: "fix_loop (butlast fixed @ [merge_rows (last fixed) row]) rest = Inr out"
      by (auto split: if_splits)
    from ne Cons.prems(2) obtain p ps where l: "last fixed = p # ps" and p: "clean p \<noteq> None"
      unfolding good_rows_def using last_in_set by blast
    have "good_rows (butlast fixed @ [merge_rows (last fixed) row])"
      using good_merge_rows [OF l p row None] Cons.prems(2)
      by (simp add: good_rows_snoc good_rows_butlast)
    with Cons.IH rec show ?thesis by blast
  next
    case (Some s)
    with Cons.prems(1) row have rec: "fix_loop (fixed @ [row]) rest = Inr out" by simp
    have "good_rows (fixed @ [row])" using Cons.prems(2) row Some by (simp add: good_rows_snoc)
    with Cons.IH rec show ?thesis by blast
  qed
qed

lemma fix_loop_append_good: "good_rows rs \<Longrightarrow> fix_loop fixed rs = Inr (fixed @ rs)"
proof (induction rs arbitrary: fixed)
  case Nil
  then show ?case by simp
next
  case (Cons row rest)
  then obtain c cs s where "row = c # cs" "clean c = Some s" and g: "good_rows rest"
    by (auto simp: good_rows_def)
  then show ?case using Cons.IH [OF g, of "fixed @ [row]"] by simp
qed

lemma fix_loop_total:
  "fixed \<noteq> [] \<Longrightarrow> \<forall>r\<in>set rs. r \<noteq> [] \<Longrightarrow> \<exists>out. fix_loop fixed rs = Inr out"
proof (induction rs arbitrary: fixed)
  case Nil
  then show ?case by simp
next
  case (Cons row rest)
  then obtain c cs where row: "row = c # cs" by (cases row) auto
  show ?case
  proof (cases "clean c")
    case None
    then show ?thesis using Cons row by simp
  next
    case (Some s)
    then show ?thesis using Cons row by simp
  qed
qed

text \<open>
  Claim C4. \<^verbatim>\<open>fix_continuation\<close> is idempotent: whenever it returns a frame, applying
  it to that frame returns the same frame; and in the frame it returns every row has a
  first cell on which \<open>clean\<close> gives a string, so that a second pass merges nothing.
\<close>

theorem fix_continuation_idempotent:
  "fix_continuation df = Inr out \<Longrightarrow>
   fix_continuation out = Inr out \<and> (\<forall>r\<in>set (rows out). \<exists>c cs. r = c # cs \<and> clean c \<noteq> None)"
proof -
  assume a: "fix_continuation df = Inr out"
  then obtain fixed where f: "fix_loop [] (rows df) = Inr fixed"
    and out: "out = \<lparr>columns = columns df, rows = fixed\<rparr>"
    by (auto simp: fix_continuation_def split: sum.splits)
  have g: "good_rows fixed" using fix_loop_good [OF f] by (simp add: good_rows_def)
  have "fix_loop [] fixed = Inr fixed" using fix_loop_append_good [OF g, of "[]"] by simp
  then have "fix_continuation out = Inr out" by (simp add: fix_continuation_def out)
  then show ?thesis using g out by (simp add: good_rows_def)
qed

theorem fix_continuation_idempotent_witness:
  "fix_continuation \<lparr>columns = 2, rows =
      [[Str (ustr ''1''), Str (ustr ''b'')], [Str [], Str (ustr ''c'')], [Str (ustr ''2''), Str (ustr ''e'')]]\<rparr>
     = Inr \<lparr>columns = 2, rows = [[Str (ustr ''1''), Str (ustr ''b c'')], [Str (ustr ''2''), Str (ustr ''e'')]]\<rparr> \<and>
   fix_continuation \<lparr>columns = 2, rows = [[Str (ustr ''1''), Str (ustr ''b c'')], [Str (ustr ''2''), Str (ustr ''e'')]]\<rparr>
     = Inr \<lparr>columns = 2, rows = [[Str (ustr ''1''), Str (ustr ''b c'')], [Str (ustr ''2''), Str (ustr ''e'')]]\<rparr>"
proof -
  have c1: "clean (Str (ustr ''1'')) = Some (ustr ''1'')"
    by (simp add: clean_words is_space_def remove_newlines_def split_ws_Cons)
  have c2: "clean (Str (ustr ''2'')) = Some (ustr ''2'')"
    by (simp add: clean_words is_space_def remove_newlines_def split_ws_Cons)
  have c0: "clean (Str []) = None" by (simp add: clean_None_iff)
  have h: "fix_continuation \<lparr>columns = 2, rows =
      [[Str (ustr ''1''), Str (ustr ''b'')], [Str [], Str (ustr ''c'')], [Str (ustr ''2''), Str (ustr ''e'')]]\<rparr>
     = Inr \<lparr>columns = 2, rows = [[Str (ustr ''1''), Str (ustr ''b c'')], [Str (ustr ''2''), Str (ustr ''e'')]]\<rparr>"
    using c1 c2 c0
    by (simp add: fix_continuation_def merge_rows_def merge_cell_def strip_def is_space_def)
  from fix_continuation_idempotent [OF h] h show ?thesis by blast
qed

text \<open>
  Claim C10. \<^verbatim>\<open>fix_continuation\<close> is partial: on every frame whose first row has a
  first cell on which \<open>clean\<close> gives \<^verbatim>\<open>None\<close>, it reads the last element of the still
  empty list of output rows and raises \<^verbatim>\<open>IndexError\<close>. The guard of its caller
  removes a first row only when that cell is missing or the empty string, so that a
  first cell of whitespace only reaches \<^verbatim>\<open>fix_continuation\<close> and the caller raises
  too. On a (rectangular) frame whose first row has a first cell on which \<open>clean\<close>
  gives a string, \<^verbatim>\<open>fix_continuation\<close> returns a frame.
\<close>

theorem fix_continuation_partial:
  "(\<forall>c cs rest. rows df = (c # cs) # rest \<and> clean c = None \<longrightarrow>
      fix_continuation df = Inl IndexError) \<and>
   (\<forall>s cs rest. columns df = 6 \<and> rows df = (Str s # cs) # rest \<and> s \<noteq> [] \<and>
      (\<forall>ch\<in>set s. is_space ch) \<longrightarrow>
      extract_mulkiyete_ait_serh_beyan [df] = Inl IndexError) \<and>
   (\<forall>c cs rest. wf_df df \<and> rows df = (c # cs) # rest \<and> clean c \<noteq> None \<longrightarrow>
      (\<exists>out. fix_continuation df = Inr out))"
proof (intro conjI allI impI)
  fix c cs rest
  assume "rows df = (c # cs) # rest \<and> clean c = None"
  then show "fix_continuation df = Inl IndexError" by (simp add: fix_continuation_def)
next
  fix s cs rest
  assume a: "columns df = 6 \<and> rows df = (Str s # cs) # rest \<and> s \<noteq> [] \<and> (\<forall>ch\<in>set s. is_space ch)"
  then have n: "clean (Str s) = None" by (simp add: clean_None_iff)
  have "fix_continuation (concat_frames [df]) = Inl IndexError"
    using a n by (simp add: fix_continuation_def concat_frames_def)
  then show "extract_mulkiyete_ait_serh_beyan [df] = Inl IndexError"
    using a by (simp add: extract_mulkiyete_ait_serh_beyan_def concat_frames_def)
next
  fix c cs rest
  assume a: "wf_df df \<and> rows df = (c # cs) # rest \<and> clean c \<noteq> None"
  then obtain s where s: "clean c = Some s" by auto
  from a have "\<forall>r\<in>set rest. length r = Suc (length cs)" by (auto simp: wf_df_def)
  then have "\<forall>r\<in>set rest. r \<noteq> []" by auto
  from fix_loop_total [OF _ this, of "[c # cs]"] obtain fixed where "fix_loop [c # cs] rest = Inr fixed" by auto
  then show "\<exists>out. fix_continuation df = Inr out" using a s by (simp add: fix_continuation_def)
qed

theorem fix_continuation_partial_witness:
  "fix_continuation \<lparr>columns = 1, rows = [[Str (ustr '' '')], [Str (ustr ''1'')]]\<rparr> = Inl IndexError \<and>
   extract_mulkiyete_ait_serh_beyan
     [\<lparr>columns = 6, rows = [[Str (ustr '' ''), Str [], Str [], Str [], Str [], Str []]]\<rparr>] = Inl IndexError \<and>
   (\<exists>out. fix_continuation \<lparr>columns = 1, rows = [[Str (ustr ''1'')], [Str (ustr '' '')]]\<rparr> = Inr out)"
proof -
  have n: "clean (Str (ustr '' '')) = None" by (simp add: clean_None_iff)
  have c: "clean (Str (ustr ''1'')) \<noteq> None" by (simp add: clean_None_iff is_space_def)
  have w: "wf_df \<lparr>columns = 1, rows = [[Str (ustr ''1'')], [Str (ustr '' '')]]\<rparr>"
    by (simp add: wf_df_def)
  have s: "\<forall>ch\<in>set (ustr '' ''). is_space ch" by simp
  have 1: "fix_continuation \<lparr>columns = 1, rows = [[Str (ustr '' '')], [Str (ustr ''1'')]]\<rparr> = Inl IndexError"
    using fix_continuation_partial [of "\<lparr>columns = 1, rows = [[Str (ustr '' '')], [Str (ustr ''1'')]]\<rparr>"] n
    by simp
  have 2: "extract_mulkiyete_ait_serh_beyan
     [\<lparr>columns = 6, rows = [[Str (ustr '' ''), Str [], Str [], Str [], Str [], Str []]]\<rparr>] = Inl IndexError"
    using fix_continuation_partial
      [of "\<lparr>columns = 6, rows = [[Str (ustr '' ''), Str [], Str [], Str [], Str [], Str []]]\<rparr>"] s
    by simp
  have 3: "\<exists>out. fix_continuation \<lparr>columns = 1, rows = [[Str (ustr ''1'')], [Str (ustr '' '')]]\<rparr> = Inr out"
    using fix_continuation_partial [of "\<lparr>columns = 1, rows = [[Str (ustr ''1'')], [Str (ustr '' '')]]\<rparr>"] w c
    by simp
  show ?thesis using 1 2 3 by blast
qed

text \<open>
  Claim C3. The first row is dropped before the merge only when its first cell is
  missing or the empty string. On a table whose first row starts with a cell of one
  space, on which \<open>clean\<close> gives \<^verbatim>\<open>None\<close>, the row is kept, and the merge raises
  \<^verbatim>\<open>IndexError\<close>; with the empty string in that cell the row is dropped and the
  table is returned.
\<close>

theorem header_drop_misses_blank_cell:
  "clean (Str (ustr '' '')) = None \<and>
   extract_mulkiyete_ait_serh_beyan
     [\<lparr>columns = 6, rows =
        [[Str (ustr '' ''), Str [], Str [], Str [], Str [], Str []],
         [Str (ustr ''S/B/I''), Str [], Str [], Str [], Str [], Str []],
         [Str (ustr ''1''), Str [], Str [], Str [], Str [], Str []]]\<rparr>] = Inl IndexError \<and>
   extract_mulkiyete_ait_serh_beyan
     [\<lparr>columns = 6, rows =
        [[Str [], Str [], Str [], Str [], Str [], Str []],
         [Str (ustr ''S/B/I''), Str [], Str [], Str [], Str [], Str []],
         [Str (ustr ''1''), Str [], Str [], Str [], Str [], Str []]]\<rparr>]
     = Inr \<lparr>columns = 6, rows = [[Str (ustr ''1''), Str [], Str [], Str [], Str [], Str []]]\<rparr>"
proof -
  have n: "clean (Str (ustr '' '')) = None" by (simp add: clean_None_iff)
  have c1: "clean (Str (ustr ''1'')) = Some (ustr ''1'')"
    by (simp add: clean_words is_space_def remove_newlines_def split_ws_Cons)
  have c2: "clean (Str (ustr ''S/B/I'')) = Some (ustr ''S/B/I'')"
    by (simp add: clean_words is_space_def remove_newlines_def split_ws_Cons)
  show ?thesis using n c1 c2
    by (simp add: extract_mulkiyete_ait_serh_beyan_def concat_frames_def fix_continuation_def)
qed
section \<open>The batch\<close>

lemma process_loop_eq:
  "process_loop single n i docs =
     (filter (\<lambda>df. df \<noteq> []) (map (records_of single) docs),
      length (filter (doc_failed single) docs),
      map (\<lambda>(k, d). Progress k n (if doc_failed single d then Failed else Processed) (name d))
          (zip [i ..< i + length docs] docs))"
proof (induction docs arbitrary: i)
  case Nil
  then show ?case by simp
next
  case (Cons d ds)
  have u: "[i ..< i + length (d # ds)] = i # [Suc i ..< Suc i + length ds]"
    by (subst upt_conv_Cons) simp_all
  show ?case
  proof (cases "single d")
    case None
    then show ?thesis unfolding u
      by (simp add: Cons.IH [of "Suc i"] records_of_def doc_failed_def)
  next
    case (Some df)
    then show ?thesis unfolding u
      by (simp add: Cons.IH [of "Suc i"] records_of_def doc_failed_def)
  qed
qed

lemma concat_filter_nonempty: "concat (filter (\<lambda>xs. xs \<noteq> []) xss) = concat xss"
  by (induction xss) auto

lemma filter_nonempty_Nil_concat: "filter (\<lambda>xs. xs \<noteq> []) xss = [] \<Longrightarrow> concat xss = []"
  using concat_filter_nonempty [of xss] by simp

lemma process_multiple_pdfs_result:
  "snd (process_multiple_pdfs single docs) =
     (concat (map (records_of single) docs), length (filter (doc_failed single) docs))"
proof -
  obtain frames failures events where p: "process_loop single (length docs) 1 docs = (frames, failures, events)"
    by (cases "process_loop single (length docs) 1 docs") auto
  have f: "frames = filter (\<lambda>df. df \<noteq> []) (map (records_of single) docs)"
    and n: "failures = length (filter (doc_failed single) docs)"
    using p unfolding process_loop_eq by simp_all
  show ?thesis
  proof (cases "frames = []")
    case True
    then have "concat (map (records_of single) docs) = []"
      using f filter_nonempty_Nil_concat by metis
    then show ?thesis using p True n by (simp add: process_multiple_pdfs_def)
  next
    case False
    have "concat frames = concat (map (records_of single) docs)"
      unfolding f by (rule concat_filter_nonempty)
    then show ?thesis using p False n by (simp add: process_multiple_pdfs_def)
  qed
qed



lemma and_then_Inl [simp]: "and_then (Inl e) f = Inl e"
  by (simp add: and_then_def)

lemma and_then_Inr [simp]: "and_then (Inr x) f = f x"
  by (simp add: and_then_def)

lemma and_then_InrE:
  assumes "and_then m f = Inr y"
  obtains x where "m = Inr x" and "f x = Inr y"
  using assms by (cases m) (simp_all add: and_then_def)

lemma general_info_of_keys:
  assumes "general_info_of pf col_1 col_2 = Inr gi"
  shows "map fst gi = info_keys"
  using assms unfolding general_info_of_def
  apply (elim and_then_InrE)
  apply (auto simp: Let_def info_keys_def split: prod.splits)
  done

lemma extract_general_info_keys:
  "extract_general_info pf dfs = [] \<or> map fst (extract_general_info pf dfs) = info_keys"
  by (auto simp: extract_general_info_def dest: general_info_of_keys split: sum.splits)

lemma general_info_of_bad_int:
  assumes "iloc col_1 1 1 = Inr c" and "py_int pf (py_str c) = Inl e"
  shows "general_info_of pf col_1 col_2 = Inl e"
  unfolding general_info_of_def using assms by simp

lemma extract_general_info_bad_int:
  assumes "iloc (dfs ! 0) 1 1 = Inr c" and "py_int pf (py_str c) = Inl e"
  shows "extract_general_info pf dfs = []"
  using general_info_of_bad_int [OF assms] by (simp add: extract_general_info_def)

lemma frames_Nil_iff:
  "filter (\<lambda>df. df \<noteq> []) (map (records_of single) docs) = [] \<longleftrightarrow>
   (\<forall>d\<in>set docs. doc_failed single d)"
  by (induction docs) (auto simp: doc_failed_def)

lemma length_frames:
  "length (filter (\<lambda>df. df \<noteq> []) (map (records_of single) docs)) =
   length (filter (\<lambda>d. \<not> doc_failed single d) docs)"
  by (induction docs) (auto simp: doc_failed_def)

lemma process_multiple_pdfs_eq:
  "process_multiple_pdfs single docs =
     (Start (length docs) #
      map (\<lambda>(k, d). Progress k (length docs) (if doc_failed single d then Failed else Processed) (name d))
          (zip [1 ..< 1 + length docs] docs) @
      [if \<forall>d\<in>set docs. doc_failed single d
       then ErrorEv ''No dataframes produced from any PDF''
       else Complete (length (filter (\<lambda>d. \<not> doc_failed single d) docs))
                     (length (filter (doc_failed single) docs))],
      concat (map (records_of single) docs),
      length (filter (doc_failed single) docs))"
proof -
  let ?frames = "filter (\<lambda>df. df \<noteq> []) (map (records_of single) docs)"
  show ?thesis
  proof (cases "\<forall>d\<in>set docs. doc_failed single d")
    case True
    then have f: "?frames = []" by (simp only: frames_Nil_iff)
    then have c: "concat (map (records_of single) docs) = []"
      by (rule filter_nonempty_Nil_concat)
    show ?thesis using True f c
      by (simp add: process_multiple_pdfs_def process_loop_eq del: filter_map)
  next
    case False
    then have f: "?frames \<noteq> []" by (simp only: frames_Nil_iff not_False_eq_True)
    have c: "concat ?frames = concat (map (records_of single) docs)"
      by (rule concat_filter_nonempty)
    show ?thesis using False f c length_frames [of single docs]
      by (simp add: process_multiple_pdfs_def process_loop_eq del: filter_map)
  qed
qed

lemma no_terminal_progress:
  "filter terminal (map (\<lambda>(k, d). Progress k n (st d) (name d)) zs) = []"
  by (induction zs) auto

lemma concat_records_Nil_iff:
  "concat (map (records_of single) docs) = [] \<longleftrightarrow> (\<forall>d\<in>set docs. doc_failed single d)"
  by (induction docs) (auto simp: doc_failed_def)
section \<open>The example documents, evaluated\<close>

lemmas text_eval =
  clean_words clean_None_iff remove_newlines_def split_ws_Cons strip_def is_space_def
  is_digit_def isdigit_def is_unicode_digit_def is_decimal_def decimal_value_def plain_def
  c_isspace_def transform_decimal_and_space_to_ascii_def

lemma info_ok_eq: "extract_general_info plain (tables doc_ok) = info_ok"
  by (simp add: extract_general_info_def general_info_of_def doc_ok_def header_1_def
      header_2_def iloc_def py_int_def digits_value_def extract_il_ilce_def
      extract_ada_parsel_def extract_blok_kat_giris_bbno_def info_ok_def Let_def text_eval)

lemma restrictions_ok:
  "extract_mulkiyete_ait_serh_beyan (tables doc_ok) =
     Inr \<lparr>columns = 6, rows = [[Str (ustr ''1''), Str (ustr ''d''), Str [], Str [], Str [], Str []]]\<rparr>"
  by (simp add: extract_mulkiyete_ait_serh_beyan_def doc_ok_def header_1_def header_2_def
      restrictions_def concat_frames_def fix_continuation_def Let_def text_eval)

lemma single_id_ok: "single_id doc_ok = Some rows_ok"
  using info_ok_eq restrictions_ok
  by (simp add: single_id_def process_single_pdf_def doc_ok_def info_ok_def rows_ok_def
      df_empty_def clean_upper_def Let_def text_eval)

lemma single_id_no_tables: "single_id doc_no_tables = None"
  by (simp add: single_id_def process_single_pdf_def doc_no_tables_def)

lemma bad_number_cell:
  "iloc (tables doc_bad_number ! 0) 1 1 = Inr (Str (ustr ''12a'')) \<and>
   py_int plain (py_str (Str (ustr ''12a''))) = Inl ValueError"
  by (simp add: doc_bad_number_def header_1_bad_def iloc_def py_int_def Let_def text_eval)



lemma blank_first_raises:
  "extract_mulkiyete_ait_serh_beyan (tables doc_blank_first) = Inl IndexError"
  by (simp add: extract_mulkiyete_ait_serh_beyan_def doc_blank_first_def header_1_def
      header_2_def blank_first_def concat_frames_def fix_continuation_def Let_def text_eval)
section \<open>Failures of documents, general information and terminal events\<close>



text \<open>
  Claim C7. The general information of a document is either the empty dictionary,
  on which the document fails, or a dictionary with exactly the twelve keys. Every
  record of a document carries the dictionary extracted from the tables of that
  document and the name of that document; every record of a batch is a record of one
  of its documents; and a document for which the general information, the restriction
  table or the field decomposition fails contributes no record.
\<close>

theorem records_carry_own_general_info:
  "(extract_general_info pf dfs = [] \<or>
    map fst (extract_general_info pf dfs) = info_keys) \<and>
   (\<forall>rs. process_single_pdf pf extract_fields d = Some rs \<longrightarrow>
      (\<forall>r\<in>set rs. info r = extract_general_info pf (tables d) \<and>
                   map fst (info r) = info_keys \<and> source_file r = name d)) \<and>
   (\<forall>r\<in>set (fst (snd (process_multiple_pdfs
                          (process_single_pdf pf extract_fields) docs))).
      \<exists>d'\<in>set docs. \<exists>rs.
        process_single_pdf pf extract_fields d' = Some rs \<and> r \<in> set rs \<and>
        info r = extract_general_info pf (tables d') \<and>
        map fst (info r) = info_keys \<and> source_file r = name d') \<and>
   (extract_general_info pf (tables d) = [] \<longrightarrow>
      process_single_pdf pf extract_fields d = None) \<and>
   (\<forall>e. extract_mulkiyete_ait_serh_beyan (tables d) = Inl e \<longrightarrow>
      process_single_pdf pf extract_fields d = None) \<and>
   (\<forall>df e. extract_mulkiyete_ait_serh_beyan (tables d) = Inr df \<and>
      extract_fields (df\<lparr>rows := map (map (clean_upper pf)) (rows df)\<rparr>) = Inl e \<longrightarrow>
      process_single_pdf pf extract_fields d = None) \<and>
   (process_single_pdf pf extract_fields d = None \<longrightarrow>
      records_of (process_single_pdf pf extract_fields) d = [])"
proof -
  let ?P = "process_single_pdf pf extract_fields"
  have a: "extract_general_info pf dfs = [] \<or>
    map fst (extract_general_info pf dfs) = info_keys"
    by (rule extract_general_info_keys)
  have own: "\<forall>r\<in>set rs. info r = extract_general_info pf (tables d') \<and>
                   map fst (info r) = info_keys \<and> source_file r = name d'"
    if s: "?P d' = Some rs" for d' rs
  proof -
    from s have ne: "extract_general_info pf (tables d') \<noteq> []"
      by (auto simp: process_single_pdf_def Let_def split: if_splits)
    then have k: "map fst (extract_general_info pf (tables d')) = info_keys"
      using extract_general_info_keys [of pf "tables d'"] by simp
    from s obtain final_rows where
      "rs = map (\<lambda>r. \<lparr>cells = r, info = extract_general_info pf (tables d'),
                        source_file = name d'\<rparr>) final_rows"
      by (auto simp: process_single_pdf_def Let_def split: if_splits sum.splits)
    then show ?thesis using k by auto
  qed
  have b: "\<forall>rs. ?P d = Some rs \<longrightarrow>
      (\<forall>r\<in>set rs. info r = extract_general_info pf (tables d) \<and>
                   map fst (info r) = info_keys \<and> source_file r = name d)"
    using own by blast
  have c: "\<forall>r\<in>set (fst (snd (process_multiple_pdfs ?P docs))).
      \<exists>d'\<in>set docs. \<exists>rs. ?P d' = Some rs \<and> r \<in> set rs \<and>
        info r = extract_general_info pf (tables d') \<and>
        map fst (info r) = info_keys \<and> source_file r = name d'"
  proof
    fix r
    assume "r \<in> set (fst (snd (process_multiple_pdfs ?P docs)))"
    then have "r \<in> set (concat (map (records_of ?P) docs))"
      by (simp add: process_multiple_pdfs_result)
    then obtain d' where d': "d' \<in> set docs" and r: "r \<in> set (records_of ?P d')" by auto
    from r obtain rs where rs: "?P d' = Some rs" and rin: "r \<in> set rs"
      by (cases "?P d'") (auto simp: records_of_def)
    from own [OF rs] rin d' rs
    show "\<exists>d'\<in>set docs. \<exists>rs. ?P d' = Some rs \<and> r \<in> set rs \<and>
        info r = extract_general_info pf (tables d') \<and>
        map fst (info r) = info_keys \<and> source_file r = name d'"
      by blast
  qed
  have e: "extract_general_info pf (tables d) = [] \<longrightarrow> ?P d = None"
    by (simp add: process_single_pdf_def Let_def)
  have f: "\<forall>e. extract_mulkiyete_ait_serh_beyan (tables d) = Inl e \<longrightarrow> ?P d = None"
    by (auto simp: process_single_pdf_def Let_def)
  have g: "\<forall>df e. extract_mulkiyete_ait_serh_beyan (tables d) = Inr df \<and>
      extract_fields (df\<lparr>rows := map (map (clean_upper pf)) (rows df)\<rparr>) = Inl e \<longrightarrow>
      ?P d = None"
  proof (intro allI impI)
    fix df e
    assume "extract_mulkiyete_ait_serh_beyan (tables d) = Inr df \<and>
      extract_fields (df\<lparr>rows := map (map (clean_upper pf)) (rows df)\<rparr>) = Inl e"
    then show "?P d = None" by (simp add: process_single_pdf_def Let_def)
  qed
  have h: "?P d = None \<longrightarrow> records_of ?P d = []"
    by (simp add: records_of_def)
  show ?thesis by (intro conjI) (rule a b c e f g h)+
qed

theorem records_carry_own_general_info_witness:
  "single_id doc_ok = Some rows_ok \<and>
   info (hd rows_ok) = info_ok \<and>
   map fst (info (hd rows_ok)) = info_keys \<and>
   source_file (hd rows_ok) = ''ok.pdf'' \<and>
   fst (snd (process_multiple_pdfs single_id [doc_no_tables, doc_ok])) = rows_ok \<and>
   (\<exists>d' rs. (d' = doc_no_tables \<or> d' = doc_ok) \<and> single_id d' = Some rs \<and> hd rows_ok \<in> set rs \<and>
       info (hd rows_ok) = extract_general_info plain (tables d') \<and>
       source_file (hd rows_ok) = name d') \<and>
   single_id doc_bad_number = None \<and>
   single_id doc_blank_first = None \<and>
   process_single_pdf plain (\<lambda>df. Inl ValueError) doc_ok = None"
proof -
  note T = records_carry_own_general_info
    [where pf = plain and extract_fields = "\<lambda>df. Inr (rows df)"
       and docs = "[doc_no_tables, doc_ok]" and dfs = "tables doc_ok",
     folded single_id_def]
  note U = records_carry_own_general_info
    [where pf = plain and extract_fields = "\<lambda>df. Inl ValueError"
       and d = doc_ok and docs = "[]" and dfs = "[]"]
  have h: "hd rows_ok \<in> set rows_ok" by (simp add: rows_ok_def)
  have a: "\<forall>r\<in>set rows_ok. info r = extract_general_info plain (tables doc_ok) \<and>
       map fst (info r) = info_keys \<and> source_file r = name doc_ok"
    using T [where d = doc_ok] single_id_ok by blast
  have nm: "name doc_ok = ''ok.pdf''" by (simp add: doc_ok_def)
  have a': "info (hd rows_ok) = info_ok \<and> map fst (info (hd rows_ok)) = info_keys \<and>
       source_file (hd rows_ok) = ''ok.pdf''"
    using a [unfolded info_ok_eq nm] h by blast
  have a1: "info (hd rows_ok) = info_ok" using a' by (elim conjE)
  have a2: "map fst (info (hd rows_ok)) = info_keys" using a' by (elim conjE)
  have a3: "source_file (hd rows_ok) = ''ok.pdf''" using a' by (elim conjE)
  have b: "fst (snd (process_multiple_pdfs single_id [doc_no_tables, doc_ok])) = rows_ok"
    by (simp add: process_multiple_pdfs_result records_of_def single_id_ok single_id_no_tables)
  have c: "\<forall>r\<in>set (fst (snd (process_multiple_pdfs single_id [doc_no_tables, doc_ok]))).
      \<exists>d'\<in>set [doc_no_tables, doc_ok]. \<exists>rs. single_id d' = Some rs \<and> r \<in> set rs \<and>
        info r = extract_general_info plain (tables d') \<and>
        map fst (info r) = info_keys \<and> source_file r = name d'"
    using T [where d = doc_ok] by blast
  have "\<exists>d'\<in>set [doc_no_tables, doc_ok]. \<exists>rs. single_id d' = Some rs \<and> hd rows_ok \<in> set rs \<and>
        info (hd rows_ok) = extract_general_info plain (tables d') \<and>
        map fst (info (hd rows_ok)) = info_keys \<and> source_file (hd rows_ok) = name d'"
    using c [unfolded b] h by blast
  then have c': "\<exists>d' rs. (d' = doc_no_tables \<or> d' = doc_ok) \<and> single_id d' = Some rs \<and>
       hd rows_ok \<in> set rs \<and>
       info (hd rows_ok) = extract_general_info plain (tables d') \<and>
       source_file (hd rows_ok) = name d'"
    by auto
  have g: "extract_general_info plain (tables doc_bad_number) = []"
    using extract_general_info_bad_int bad_number_cell by blast
  have n2: "single_id doc_bad_number = None"
    using T [where d = doc_bad_number] g by blast
  have n5: "single_id doc_blank_first = None"
    using T [where d = doc_blank_first] blank_first_raises by blast
  have n6: "process_single_pdf plain (\<lambda>df. Inl ValueError) doc_ok = None"
    using U restrictions_ok by blast
  show ?thesis by (intro conjI) (rule single_id_ok a1 a2 a3 b c' n2 n5 n6)+
qed

text \<open>
  Claim C9. The queue of a job is written after a terminal event. When every
  document of the batch fails, three \<^verbatim>\<open>error\<close> events are written one after the
  other, by \<^verbatim>\<open>process_multiple_pdfs\<close>, by \<^verbatim>\<open>process_pdf_files\<close> and by
  \<^verbatim>\<open>process_job\<close>, and they are the last three events of the queue. When a document
  gives records and the output file cannot be written, two \<^verbatim>\<open>error\<close> events are
  written. Only when the output file is written is there one terminal event, the
  \<^verbatim>\<open>finished\<close> event at the end of the queue.
\<close>

theorem error_events_repeated:
  "((\<forall>d\<in>set docs. doc_failed single d) \<longrightarrow>
      job_queue single to_excel to_csv output_format docs =
        Queued # Start (length docs) #
        map (\<lambda>(k, d). Progress k (length docs) Failed (name d)) (zip [1 ..< 1 + length docs] docs) @
        [ErrorEv ''No dataframes produced from any PDF'',
         ErrorEv ''No data extracted from PDFs'',
         ErrorEv ''No data extracted from PDFs''] \<and>
      length (filter terminal (job_queue single to_excel to_csv output_format docs)) = 3) \<and>
   ((\<exists>d\<in>set docs. \<not> doc_failed single d) \<and> str_lower output_format = ''excel'' \<and>
    \<not> to_excel (concat (map (records_of single) docs)) \<longrightarrow>
      filter terminal (job_queue single to_excel to_csv output_format docs) =
        [ErrorEv ''Failed to generate output file'', ErrorEv ''Failed to generate output file'']) \<and>
   ((\<exists>d\<in>set docs. \<not> doc_failed single d) \<and> str_lower output_format = ''excel'' \<and>
    to_excel (concat (map (records_of single) docs)) \<longrightarrow>
      filter terminal (job_queue single to_excel to_csv output_format docs) =
        [Finished (''Successfully processed '' @ show_nat (length docs) @ '' PDFs'')] \<and>
      last (job_queue single to_excel to_csv output_format docs) =
        Finished (''Successfully processed '' @ show_nat (length docs) @ '' PDFs''))"
proof -
  let ?P = "\<lambda>(k, d). Progress k (length docs) (if doc_failed single d then Failed else Processed) (name d)"
  let ?zs = "zip [1 ..< 1 + length docs] docs"
  let ?df = "concat (map (records_of single) docs)"
  have np: "filter terminal (map ?P ?zs) = []"
    using no_terminal_progress [of "length docs" "\<lambda>d. if doc_failed single d then Failed else Processed" ?zs]
    by simp
  have a: "job_queue single to_excel to_csv output_format docs =
        Queued # Start (length docs) #
        map (\<lambda>(k, d). Progress k (length docs) Failed (name d)) ?zs @
        [ErrorEv ''No dataframes produced from any PDF'',
         ErrorEv ''No data extracted from PDFs'',
         ErrorEv ''No data extracted from PDFs''] \<and>
      length (filter terminal (job_queue single to_excel to_csv output_format docs)) = 3"
    if all: "\<forall>d\<in>set docs. doc_failed single d"
  proof -
    have e: "?df = []" using all by (simp only: concat_records_Nil_iff)
    have m: "map ?P ?zs = map (\<lambda>(k, d). Progress k (length docs) Failed (name d)) ?zs"
    proof (rule map_cong [OF refl])
      fix z assume zin: "z \<in> set ?zs"
      obtain k d where z: "z = (k, d)" by (cases z)
      have "(k, d) \<in> set ?zs" using zin unfolding z .
      then have "d \<in> set docs" by (rule set_zip_rightD)
      then have "doc_failed single d" using all by blast
      then show "?P z = (\<lambda>(k, d). Progress k (length docs) Failed (name d)) z"
        unfolding z by simp
    qed
    have q: "job_queue single to_excel to_csv output_format docs =
        Queued # Start (length docs) # map ?P ?zs @
        [ErrorEv ''No dataframes produced from any PDF'',
         ErrorEv ''No data extracted from PDFs'',
         ErrorEv ''No data extracted from PDFs'']"
      using all e
      by (simp add: job_queue_def process_job_def process_pdf_files_def process_multiple_pdfs_eq)
    have n: "length (filter terminal (job_queue single to_excel to_csv output_format docs)) = 3"
      unfolding q using np by simp
    show ?thesis using q n unfolding m by simp
  qed
  have b: "filter terminal (job_queue single to_excel to_csv output_format docs) =
        [ErrorEv ''Failed to generate output file'', ErrorEv ''Failed to generate output file'']"
    if h: "(\<exists>d\<in>set docs. \<not> doc_failed single d) \<and> str_lower output_format = ''excel'' \<and>
           \<not> to_excel ?df"
  proof -
    from h have na: "\<not> (\<forall>d\<in>set docs. doc_failed single d)" by blast
    then have ne: "?df \<noteq> []" by (simp only: concat_records_Nil_iff not_False_eq_True)
    have q: "job_queue single to_excel to_csv output_format docs =
        Queued # Start (length docs) # map ?P ?zs @
        [Complete (length (filter (\<lambda>d. \<not> doc_failed single d) docs))
                  (length (filter (doc_failed single) docs)),
         ErrorEv ''Failed to generate output file'', ErrorEv ''Failed to generate output file'']"
      using h na ne
      by (simp add: job_queue_def process_job_def process_pdf_files_def process_multiple_pdfs_eq
          generate_excel_def)
    show ?thesis unfolding q using np by simp
  qed
  have c: "filter terminal (job_queue single to_excel to_csv output_format docs) =
        [Finished (''Successfully processed '' @ show_nat (length docs) @ '' PDFs'')] \<and>
      last (job_queue single to_excel to_csv output_format docs) =
        Finished (''Successfully processed '' @ show_nat (length docs) @ '' PDFs'')"
    if h: "(\<exists>d\<in>set docs. \<not> doc_failed single d) \<and> str_lower output_format = ''excel'' \<and>
           to_excel ?df"
  proof -
    from h have na: "\<not> (\<forall>d\<in>set docs. doc_failed single d)" by blast
    then have ne: "?df \<noteq> []" by (simp only: concat_records_Nil_iff not_False_eq_True)
    have q: "job_queue single to_excel to_csv output_format docs =
        Queued # Start (length docs) # map ?P ?zs @
        [Complete (length (filter (\<lambda>d. \<not> doc_failed single d) docs))
                  (length (filter (doc_failed single) docs)),
         OutputReady,
         Finished (''Successfully processed '' @ show_nat (length docs) @ '' PDFs'')]"
      using h na ne
      by (simp add: job_queue_def process_job_def process_pdf_files_def process_multiple_pdfs_eq
          generate_excel_def)
    show ?thesis unfolding q using np by simp
  qed
  show ?thesis using a b c by blast
qed

theorem error_events_repeated_witness:
  "job_queue single_id (\<lambda>df. True) (\<lambda>df. True) ''excel'' [doc_no_tables] =
     [Queued, Start 1, Progress 1 1 Failed ''none.pdf'',
      ErrorEv ''No dataframes produced from any PDF'',
      ErrorEv ''No data extracted from PDFs'',
      ErrorEv ''No data extracted from PDFs''] \<and>
   length (filter terminal (job_queue single_id (\<lambda>df. True) (\<lambda>df. True) ''excel'' [doc_no_tables])) = 3 \<and>
   filter terminal (job_queue single_id (\<lambda>df. False) (\<lambda>df. True) ''Excel'' [doc_ok]) =
     [ErrorEv ''Failed to generate output file'', ErrorEv ''Failed to generate output file''] \<and>
   filter terminal (job_queue single_id (\<lambda>df. True) (\<lambda>df. True) ''excel'' [doc_ok]) =
     [Finished ''Successfully processed 1 PDFs'']"
proof -
  have f: "\<forall>d\<in>set [doc_no_tables]. doc_failed single_id d"
    by (simp add: doc_failed_def records_of_def single_id_no_tables)
  have g: "\<exists>d\<in>set [doc_ok]. \<not> doc_failed single_id d"
    by (simp add: doc_failed_def records_of_def single_id_ok rows_ok_def)
  have l: "str_lower ''Excel'' = ''excel''" "str_lower ''excel'' = ''excel''"
    by code_simp+
  have n: "name doc_no_tables = ''none.pdf''" by (simp add: doc_no_tables_def)
  have s0: "show_nat 1 = ''1''" by code_simp
  have s1: "show_nat (length [doc_ok]) = ''1''" using s0 by simp
  note A = error_events_repeated [where single = single_id and docs = "[doc_no_tables]"
      and to_excel = "\<lambda>df. True" and to_csv = "\<lambda>df. True" and output_format = "''excel''"]
  note B = error_events_repeated [where single = single_id and docs = "[doc_ok]"
      and to_excel = "\<lambda>df. False" and to_csv = "\<lambda>df. True" and output_format = "''Excel''"]
  note C = error_events_repeated [where single = single_id and docs = "[doc_ok]"
      and to_excel = "\<lambda>df. True" and to_csv = "\<lambda>df. True" and output_format = "''excel''"]
  have a: "job_queue single_id (\<lambda>df. True) (\<lambda>df. True) ''excel'' [doc_no_tables] =
        Queued # Start (length [doc_no_tables]) #
        map (\<lambda>(k, d). Progress k (length [doc_no_tables]) Failed (name d))
            (zip [1 ..< 1 + length [doc_no_tables]] [doc_no_tables]) @
        [ErrorEv ''No dataframes produced from any PDF'',
         ErrorEv ''No data extracted from PDFs'',
         ErrorEv ''No data extracted from PDFs''] \<and>
      length (filter terminal (job_queue single_id (\<lambda>df. True) (\<lambda>df. True) ''excel'' [doc_no_tables])) = 3"
    using A f by blast
  have b: "filter terminal (job_queue single_id (\<lambda>df. False) (\<lambda>df. True) ''Excel'' [doc_ok]) =
     [ErrorEv ''Failed to generate output file'', ErrorEv ''Failed to generate output file'']"
    using B g l by blast
  have c: "filter terminal (job_queue single_id (\<lambda>df. True) (\<lambda>df. True) ''excel'' [doc_ok]) =
     [Finished (''Successfully processed '' @ show_nat (length [doc_ok]) @ '' PDFs'')]"
    using C g l by blast
  have a1: "job_queue single_id (\<lambda>df. True) (\<lambda>df. True) ''excel'' [doc_no_tables] =
     [Queued, Start 1, Progress 1 1 Failed ''none.pdf'',
      ErrorEv ''No dataframes produced from any PDF'',
      ErrorEv ''No data extracted from PDFs'',
      ErrorEv ''No data extracted from PDFs'']"
    using a n by simp
  have a2: "length (filter terminal (job_queue single_id (\<lambda>df. True) (\<lambda>df. True) ''excel'' [doc_no_tables])) = 3"
    using a by (elim conjE)
  have c1: "filter terminal (job_queue single_id (\<lambda>df. True) (\<lambda>df. True) ''excel'' [doc_ok]) =
     [Finished ''Successfully processed 1 PDFs'']"
    unfolding c s1 by simp
  show ?thesis by (intro conjI) (rule a1 a2 b c1)+
qed

end
